theory Spec2Isabelle
  imports Main
begin

section \<open>Data model\<close>

text \<open>
  The orchestrator of \<^verbatim>\<open>src/main.ts\<close> (class \<^verbatim>\<open>Main\<close>) as a shallow embedding.
  JavaScript strings are modelled as \<^typ>\<open>string\<close> (ASCII text), \<^verbatim>\<open>undefined\<close> as
  \<^term>\<open>None\<close>, an exception as the left summand of the result, and the mutable
  \<^verbatim>\<open>status\<close> field, the session mode of the client and everything the run does to
  the outside world (remote calls, console output) as an explicit state.
\<close>

text \<open>\<^verbatim>\<open>AbapObject\<close> and \<^verbatim>\<open>AbapInclude\<close> (declared in \<^verbatim>\<open>lib/abap\<close>): the fields
  the orchestrator reads.\<close>

record AbapObject =
  otype :: string
  oname :: string
  ourl :: "string option"

record AbapInclude =
  itype :: string
  iname :: string
  sourceUrl :: string
  metaUrl :: string

text \<open>\<^verbatim>\<open>AdtLock\<close> of the ADT client library: the fields the orchestrator reads.\<close>

record AdtLock =
  LOCK_HANDLE :: string
  CORRNR :: string
  IS_LOCAL :: bool

text \<open>\<^verbatim>\<open>interface Options { test: boolean; transport?: string }\<close>\<close>

record Options =
  opt_test :: bool
  opt_transport :: "string option"

text \<open>\<^verbatim>\<open>interface Status\<close>; the counters only ever count up from 0.\<close>

record Status =
  currentObject :: "AbapObject option"
  currentInclude :: "AbapInclude option"
  processedObjects :: nat
  processedIncludes :: nat
  writtenIncludes :: nat

text \<open>The result of an activation: \<^verbatim>\<open>success\<close>, the \<^verbatim>\<open>shortText\<close> of each message,
  and the records of objects left inactive (each with an optional object reference).\<close>

type_synonym InactiveObject = string
type_synonym InactiveObjectRecord = "InactiveObject option"

record ActivationResult =
  success :: bool
  messages :: "string list"
  inactive :: "InactiveObjectRecord list"

datatype session_types = Stateful | Stateless | Keep

text \<open>
  What can be thrown: the error of \<^verbatim>\<open>cli.error\<close>, an exception of the remote client
  (with its optional \<^verbatim>\<open>type\<close> and its \<^verbatim>\<open>message\<close>), and the \<^verbatim>\<open>TypeError\<close> of the
  JavaScript runtime.
\<close>

datatype error =
    CLIError string
  | AdtException "string option" string
  | TypeError string

fun err_type :: "error \<Rightarrow> string option" where
  "err_type (AdtException t m) = t"
| "err_type (CLIError m) = None"
| "err_type (TypeError m) = None"

fun err_message :: "error \<Rightarrow> string" where
  "err_message (AdtException t m) = m"
| "err_message (CLIError m) = m"
| "err_message (TypeError m) = m"

text \<open>Every effect of a run, in the order it happens.\<close>

datatype event =
    ActionStart string "string option"
  | ActionStop "string option"
  | Log string
  | CallLock string
  | CallUnLock string string
  | CallSetObjectSource string string string "string option"
  | CallGetObjectSource string
  | CallPrettyPrinter string
  | CallAbapLintPrettyPrint AbapInclude string
  | CallMainPrograms string
  | CallActivate string string "string option"
  | CallActivateObjects "InactiveObject list"
  | CallDropSession
  | CallExpand AbapObject
  | CallLoadAbapLintConfig string
  | CallList string string "bool option"
  | CallReadFile string

record state =
  status :: Status
  stateful :: session_types
  trace :: "event list"

text \<open>
  The collaborators of \<^verbatim>\<open>Main\<close>: the remote client, its stateless clone, and the
  imported helpers that are not part of \<^verbatim>\<open>main.ts\<close>. Each answer may depend on
  everything that happened before the call (the trace so far); a \<^verbatim>\<open>throw\<close> or a
  rejected promise is \<^term>\<open>Inl\<close>. \<^verbatim>\<open>abapLint\<close> is the constructor parameter of \<^verbatim>\<open>Main\<close>.
\<close>

record env =
  client_lock :: "event list \<Rightarrow> string \<Rightarrow> error + AdtLock"
  client_unLock :: "event list \<Rightarrow> string \<Rightarrow> string \<Rightarrow> error + unit"
  client_setObjectSource ::
    "event list \<Rightarrow> string \<Rightarrow> string \<Rightarrow> string \<Rightarrow> string option \<Rightarrow> error + unit"
  client_activate ::
    "event list \<Rightarrow> string \<Rightarrow> string \<Rightarrow> string option \<Rightarrow> error + ActivationResult"
  client_activate_objects :: "event list \<Rightarrow> InactiveObject list \<Rightarrow> error + ActivationResult"
  client_dropSession :: "event list \<Rightarrow> error + unit"
  clone_mainPrograms :: "event list \<Rightarrow> string \<Rightarrow> error + string list"
  clone_getObjectSource :: "event list \<Rightarrow> string \<Rightarrow> error + string"
  clone_prettyPrinter :: "event list \<Rightarrow> string \<Rightarrow> error + string"
  inactiveObjectsInResults :: "ActivationResult \<Rightarrow> InactiveObject list"
  lib_expand :: "event list \<Rightarrow> AbapObject \<Rightarrow> error + AbapInclude list"
  lib_list ::
    "event list \<Rightarrow> string \<Rightarrow> string \<Rightarrow> bool option \<Rightarrow> string list \<times> (error + AbapObject list)"
  supportedType :: "string \<Rightarrow> bool"
  loadAbapLintConfig :: "event list \<Rightarrow> string \<Rightarrow> error + unit"
  abapLintprettyPrint :: "event list \<Rightarrow> AbapInclude \<Rightarrow> string \<Rightarrow> error + string"
  ABAPLINT_DEFAULT :: string
  readFileSync :: "event list \<Rightarrow> string \<Rightarrow> error + string"
  abapLint :: "string option"

section \<open>JavaScript values\<close>

text \<open>A string is truthy unless it is empty; \<^verbatim>\<open>undefined\<close> is falsy.\<close>

definition truthy :: "string \<Rightarrow> bool" where
  "truthy s \<longleftrightarrow> s \<noteq> []"

fun truthy_opt :: "string option \<Rightarrow> bool" where
  "truthy_opt None = False"
| "truthy_opt (Some s) = truthy s"

text \<open>A value inside a template literal: \<^verbatim>\<open>undefined\<close> prints as the word.\<close>

fun tpl :: "string option \<Rightarrow> string" where
  "tpl None = ''undefined''"
| "tpl (Some s) = s"

definition digit :: "nat \<Rightarrow> char" where
  "digit d = ''0123456789'' ! d"

fun show_nat :: "nat \<Rightarrow> string" where
  "show_nat n = (if n < 10 then [digit n] else show_nat (n div 10) @ [digit (n mod 10)])"

declare show_nat.simps [simp del]

text \<open>\<^verbatim>\<open>chalk\<close> with colours on wraps the text in ANSI escapes.\<close>

definition green :: "string \<Rightarrow> string" where
  "green s = CHR 0x1B # ''[32m'' @ s @ CHR 0x1B # ''[39m''"

definition bold :: "string \<Rightarrow> string" where
  "bold s = CHR 0x1B # ''[1m'' @ s @ CHR 0x1B # ''[22m''"

text \<open>\<^verbatim>\<open>const tick = green("\u2713")\<close>, the check mark in UTF-8.\<close>

definition tick :: string where
  "tick = green [CHR 0xE2, CHR 0x9C, CHR 0x93]"

section \<open>Programs with state and exceptions\<close>

type_synonym 'a prog = "state \<Rightarrow> (error + 'a) \<times> state"

definition ret :: "'a \<Rightarrow> 'a prog" where
  "ret x s = (Inr x, s)"

definition throw :: "error \<Rightarrow> 'a prog" where
  "throw e s = (Inl e, s)"

definition bnd :: "'a prog \<Rightarrow> ('a \<Rightarrow> 'b prog) \<Rightarrow> 'b prog" where
  "bnd m f s = (case m s of (Inl e, s') \<Rightarrow> (Inl e, s') | (Inr x, s') \<Rightarrow> f x s')"

definition thn :: "'a prog \<Rightarrow> 'b prog \<Rightarrow> 'b prog" where
  "thn m k = bnd m (\<lambda>_. k)"

text \<open>\<^verbatim>\<open>try { m } catch (error) { h error }\<close>\<close>

definition catch :: "'a prog \<Rightarrow> (error \<Rightarrow> 'a prog) \<Rightarrow> 'a prog" where
  "catch m h s = (case m s of (Inl e, s') \<Rightarrow> h e s' | (Inr x, s') \<Rightarrow> (Inr x, s'))"

text \<open>\<^verbatim>\<open>try { m } finally { fin }\<close>: \<^verbatim>\<open>fin\<close> always runs; when it throws, its error
  replaces the outcome of \<^verbatim>\<open>m\<close>.\<close>

definition finally_do :: "'a prog \<Rightarrow> unit prog \<Rightarrow> 'a prog" where
  "finally_do m fin s =
     (case m s of (r, s') \<Rightarrow>
        (case fin s' of (Inl e, s'') \<Rightarrow> (Inl e, s'') | (Inr _, s'') \<Rightarrow> (r, s'')))"

text \<open>\<^verbatim>\<open>for (const x of xs) await f(x)\<close>\<close>

fun forEach :: "('a \<Rightarrow> unit prog) \<Rightarrow> 'a list \<Rightarrow> unit prog" where
  "forEach f [] = ret ()"
| "forEach f (x # xs) = thn (f x) (forEach f xs)"

text \<open>An effect is appended to the trace; a call is answered from the trace before it
  and is recorded whether it succeeds or fails.\<close>

definition emit :: "event \<Rightarrow> unit prog" where
  "emit ev s = (Inr (), s\<lparr>trace := trace s @ [ev]\<rparr>)"

definition call :: "event \<Rightarrow> (event list \<Rightarrow> error + 'a) \<Rightarrow> 'a prog" where
  "call ev answer s = (answer (trace s), s\<lparr>trace := trace s @ [ev]\<rparr>)"

definition modify_status :: "(Status \<Rightarrow> Status) \<Rightarrow> unit prog" where
  "modify_status f s = (Inr (), s\<lparr>status := f (status s)\<rparr>)"

definition set_stateful :: "session_types \<Rightarrow> unit prog" where
  "set_stateful m s = (Inr (), s\<lparr>stateful := m\<rparr>)"

text \<open>\<^verbatim>\<open>cli.error(msg)\<close> throws.\<close>

definition cli_error :: "string \<Rightarrow> 'a prog" where
  "cli_error msg = throw (CLIError msg)"

definition when_do :: "bool \<Rightarrow> unit prog \<Rightarrow> unit prog" where
  "when_do b m = (if b then m else ret ())"

section \<open>The lock and transport guard\<close>

text \<open>\<^verbatim>\<open>/locked/i\<close> on ASCII text: some position of the message starts with the word,
  in any mix of upper and lower case.\<close>

definition lower_ascii :: "char \<Rightarrow> char" where
  "lower_ascii c =
     (case map_of (zip ''ABCDEFGHIJKLMNOPQRSTUVWXYZ'' ''abcdefghijklmnopqrstuvwxyz'') c of
        Some l \<Rightarrow> l
      | None \<Rightarrow> c)"

fun contains :: "string \<Rightarrow> string \<Rightarrow> bool" where
  "contains pat [] = (pat = [])"
| "contains pat (c # cs) = (take (length pat) (c # cs) = pat \<or> contains pat cs)"

definition matches_locked :: "string \<Rightarrow> bool" where
  "matches_locked msg = contains ''locked'' (map lower_ascii msg)"

definition tryLock :: "env \<Rightarrow> string \<Rightarrow> AdtLock option prog" where
  "tryLock e url =
     catch (bnd (call (CallLock url) (\<lambda>tr. client_lock e tr url)) (\<lambda>l. ret (Some l)))
       (\<lambda>error.
          if err_type error = Some ''ExceptionResourceNoAccess''
             \<and> \<not> matches_locked (err_message error)
          then ret None
          else throw error)"

definition validateTransport :: "AdtLock \<Rightarrow> string \<Rightarrow> string option \<Rightarrow> unit prog" where
  "validateTransport lock key transport =
     thn (when_do (IS_LOCAL lock \<and> truthy_opt transport)
            (cli_error (''Object '' @ key @ '' is local, can't use '' @ tpl transport)))
    (thn (when_do (\<not> IS_LOCAL lock \<and> \<not> truthy_opt transport)
            (cli_error (''Object '' @ key @ '' requires a transport ''
               @ (if truthy (CORRNR lock) then ''(locked in '' @ CORRNR lock @ '')'' else ''''))))
         (when_do (transport \<noteq> Some (CORRNR lock) \<and> \<not> IS_LOCAL lock \<and> truthy (CORRNR lock))
            (cli_error (''Object '' @ key @ '' locked in transport '' @ CORRNR lock
               @ '' can't use '' @ tpl transport))))"

section \<open>The write and activate pipeline\<close>

text \<open>\<^verbatim>\<open>main?.[0]["adtcore:uri"]\<close>: the list of main programs is never \<^verbatim>\<open>undefined\<close>,
  so an empty list makes the property access on \<^verbatim>\<open>main[0]\<close> throw.\<close>

definition activate :: "env \<Rightarrow> AbapInclude \<Rightarrow> ActivationResult prog" where
  "activate e incl =
     (if itype incl = ''PROG/I''
      then bnd (call (CallMainPrograms (metaUrl incl)) (\<lambda>tr. clone_mainPrograms e tr (metaUrl incl)))
             (\<lambda>main. case main of
                [] \<Rightarrow> throw (TypeError ''Cannot read property 'adtcore:uri' of undefined'')
              | uri # _ \<Rightarrow>
                  call (CallActivate (iname incl) (sourceUrl incl) (Some uri))
                    (\<lambda>tr. client_activate e tr (iname incl) (sourceUrl incl) (Some uri)))
      else bnd (call (CallActivate (iname incl) (sourceUrl incl) None)
                  (\<lambda>tr. client_activate e tr (iname incl) (sourceUrl incl) None))
             (\<lambda>active.
                if length (inactive active) > 0
                then (let inactives = inactiveObjectsInResults e active
                      in call (CallActivateObjects inactives)
                           (\<lambda>tr. client_activate_objects e tr inactives))
                else ret active))"

text \<open>\<^verbatim>\<open>active.messages[0]?.shortText || fallback\<close>: the first message's text
  unless there is none or it is empty.\<close>

definition first_shortText :: "ActivationResult \<Rightarrow> string \<Rightarrow> string" where
  "first_shortText active dflt =
     (case messages active of [] \<Rightarrow> dflt | m # _ \<Rightarrow> if truthy m then m else dflt)"

text \<open>The template \<^verbatim>\<open>${incl.type} ${incl.name}\<close>, the \<^verbatim>\<open>key\<close> of \<^verbatim>\<open>write\<close> and
  \<^verbatim>\<open>processInclude\<close>.\<close>

definition incl_key :: "AbapInclude \<Rightarrow> string" where
  "incl_key incl = itype incl @ '' '' @ iname incl"

text \<open>\<^verbatim>\<open>write\<close>. Nothing catches in it: an error of any step leaves the function at
  that step.\<close>

definition write_incl :: "env \<Rightarrow> AbapInclude \<Rightarrow> string \<Rightarrow> AdtLock \<Rightarrow> Options \<Rightarrow> unit prog" where
  "write_incl e incl formatted lock options =
     (let key = incl_key incl; test = opt_test options; transport = opt_transport options in
      thn (when_do (\<not> truthy (LOCK_HANDLE lock)) (cli_error (''Failed to lock '' @ key)))
     (thn (validateTransport lock key transport)
     (thn (emit (ActionStart (CHR 0x09 # key) (Some '' Writing...'')))
     (thn (when_do (\<not> test)
             (call (CallSetObjectSource (sourceUrl incl) formatted (LOCK_HANDLE lock) transport)
                (\<lambda>tr. client_setObjectSource e tr (sourceUrl incl) formatted
                   (LOCK_HANDLE lock) transport)))
     (thn (emit (ActionStart (CHR 0x09 # key) (Some '' Unlocking...'')))
     (thn (call (CallUnLock (sourceUrl incl) (LOCK_HANDLE lock))
             (\<lambda>tr. client_unLock e tr (sourceUrl incl) (LOCK_HANDLE lock)))
     (thn (emit (ActionStart (CHR 0x09 # key) (Some '' Activating...'')))
     (thn (when_do (\<not> test)
             (bnd (activate e incl)
                (\<lambda>active. when_do (\<not> success active)
                   (cli_error (first_shortText active (''Failed to activate '' @ key))))))
     (thn (emit (ActionStart (CHR 0x09 # tick @ key) None))
          (modify_status (\<lambda>st. st\<lparr>writtenIncludes := writtenIncludes st + 1\<rparr>)))))))))))"

section \<open>The orchestrator\<close>

definition format :: "env \<Rightarrow> AbapInclude \<Rightarrow> string \<Rightarrow> string prog" where
  "format e incl source =
     (if truthy_opt (abapLint e)
      then call (CallAbapLintPrettyPrint incl source) (\<lambda>tr. abapLintprettyPrint e tr incl source)
      else call (CallPrettyPrinter source) (\<lambda>tr. clone_prettyPrinter e tr source))"

definition processInclude :: "env \<Rightarrow> AbapInclude \<Rightarrow> Options \<Rightarrow> unit prog" where
  "processInclude e incl options =
     (let key = incl_key incl in
      thn (modify_status (\<lambda>st. st\<lparr>currentInclude := Some incl\<rparr>))
     (thn (emit (ActionStart (CHR 0x09 # key) (Some '' Reading...'')))
     (bnd (call (CallGetObjectSource (sourceUrl incl))
             (\<lambda>tr. clone_getObjectSource e tr (sourceUrl incl)))
        (\<lambda>source.
      thn (emit (ActionStart (CHR 0x09 # key) (Some '' Formatting...'')))
     (bnd (format e incl source)
        (\<lambda>formatted.
      thn (if formatted = source
           then emit (ActionStart (CHR 0x09 # tick @ key @ '' (unchanged)'') None)
           else thn (emit (ActionStart (CHR 0x09 # key) (Some '' Locking...'')))
               (bnd (tryLock e (sourceUrl incl))
                  (\<lambda>lock. case lock of
                     Some l \<Rightarrow> write_incl e incl formatted l options
                   | None \<Rightarrow>
                       emit (ActionStart (CHR 0x09 # tick @ key @ '' is generated, skipped'')
                         None))))
     (thn (emit (ActionStop None))
     (thn (modify_status (\<lambda>st. st\<lparr>processedIncludes := processedIncludes st + 1\<rparr>))
          (modify_status (\<lambda>st. st\<lparr>currentInclude := None\<rparr>))))))))))"

text \<open>The summary line of \<^verbatim>\<open>stats\<close>, printed in bold.\<close>

definition stats_msg :: "Status \<Rightarrow> nat \<Rightarrow> string" where
  "stats_msg st objnum =
     CHR 0x0A # show_nat (processedObjects st) @ '' of '' @ show_nat objnum @ '' objects / ''
       @ show_nat (processedIncludes st) @ '' includes processed ''
       @ show_nat (writtenIncludes st) @ '' written'' @ [CHR 0x0A]"

definition stats :: "nat \<Rightarrow> unit prog" where
  "stats objnum s = emit (Log (bold (stats_msg (status s) objnum))) s"

text \<open>The body of the loop over the objects in \<^verbatim>\<open>processObjects\<close>.\<close>

definition processObject :: "env \<Rightarrow> Options \<Rightarrow> AbapObject \<Rightarrow> unit prog" where
  "processObject e options ob =
     thn (modify_status (\<lambda>st. st\<lparr>currentObject := Some ob\<rparr>))
    (thn (emit (ActionStart (otype ob @ '' '' @ oname ob) None))
    (bnd (call (CallExpand ob) (\<lambda>tr. lib_expand e tr ob))
       (\<lambda>includes.
     thn (emit (ActionStart (tick @ otype ob @ '' '' @ oname ob) None))
    (thn (emit (ActionStop None))
    (thn (forEach (\<lambda>incl. processInclude e incl options) includes)
         (modify_status (\<lambda>st. st\<lparr>processedObjects := processedObjects st + 1\<rparr>)))))))"

text \<open>The \<^verbatim>\<open>catch\<close> block of \<^verbatim>\<open>processObjects\<close>.\<close>

definition report_last :: "error \<Rightarrow> unit prog" where
  "report_last error s =
     (let currentInclude = currentInclude (status s); currentObject = currentObject (status s) in
      thn (emit (ActionStop (Some ''failed!'')))
     (thn (emit (Log (''Last object '' @ tpl (map_option otype currentObject) @ '' ''
                  @ tpl (map_option oname currentObject))))
     (thn (case currentInclude of
             Some ci \<Rightarrow> emit (Log (''Last include '' @ itype ci @ '' '' @ iname ci))
           | None \<Rightarrow> ret ())
          (throw error)))) s"

text \<open>The statement before the \<^verbatim>\<open>try\<close>:
  \<^verbatim>\<open>if (this.abapLint && this.abapLint !== ABAPLINT_DEFAULT) await loadAbapLintConfig(this.abapLint)\<close>\<close>

definition load_lint_config :: "env \<Rightarrow> unit prog" where
  "load_lint_config e =
     (case abapLint e of
        Some cfg \<Rightarrow>
          when_do (truthy cfg \<and> cfg \<noteq> ABAPLINT_DEFAULT e)
            (call (CallLoadAbapLintConfig cfg) (\<lambda>tr. loadAbapLintConfig e tr cfg))
      | None \<Rightarrow> ret ())"

text \<open>The \<^verbatim>\<open>finally\<close> block of \<^verbatim>\<open>processObjects\<close>.\<close>

definition cleanup :: "env \<Rightarrow> nat \<Rightarrow> unit prog" where
  "cleanup e objnum =
     thn (stats objnum)
    (thn (set_stateful Stateless)
         (call CallDropSession (client_dropSession e)))"

definition processObjects :: "env \<Rightarrow> AbapObject list \<Rightarrow> Options \<Rightarrow> unit prog" where
  "processObjects e objects options =
     thn (load_lint_config e)
    (thn (set_stateful Stateful)
         (finally_do
            (catch (forEach (processObject e options) objects) report_last)
            (cleanup e (length objects))))"

section \<open>The object list loader\<close>

text \<open>\<^verbatim>\<open>ListOptions\<close> (declared in \<^verbatim>\<open>lib/common\<close>): the fields \<^verbatim>\<open>list\<close> reads.\<close>

record ListOptions =
  list_file :: "string option"
  list_recursive :: "bool option"

text \<open>\<^verbatim>\<open>.split("\n")\<close>: the pieces between line feeds; a text with no line feed is one
  piece, an empty text is one empty piece.\<close>

fun split_lines :: "string \<Rightarrow> string list" where
  "split_lines [] = [[]]"
| "split_lines (c # cs) =
     (if c = CHR 0x0A then [] # split_lines cs
      else (case split_lines cs of l # ls \<Rightarrow> (c # l) # ls | [] \<Rightarrow> [[c]]))"

text \<open>\<^verbatim>\<open>\s\<close> on ASCII text: tab, line feed, vertical tab, form feed, carriage return,
  space.\<close>

definition is_space :: "char \<Rightarrow> bool" where
  "is_space c \<longleftrightarrow> c \<in> set [CHR 0x09, CHR 0x0A, CHR 0x0B, CHR 0x0C, CHR 0x0D, CHR '' '']"

text \<open>\<^verbatim>\<open>.split(/\s+/)\<close>: the pieces between maximal runs of white space; a run at the
  start or at the end leaves an empty piece there.\<close>

function split_ws :: "string \<Rightarrow> string list" where
  "split_ws [] = [[]]"
| "split_ws (c # cs) =
     (if is_space c then [] # split_ws (dropWhile is_space cs)
      else (case split_ws cs of w # ws \<Rightarrow> (c # w) # ws | [] \<Rightarrow> [[c]]))"
  by pat_completeness auto
termination
  by (relation "measure length") (auto simp: less_Suc_eq_le length_dropWhile_le)

text \<open>\<^verbatim>\<open>const isHeader = (l, i) => i === 0 && !l.match(/\//)\<close>\<close>

definition isHeader :: "string \<Rightarrow> nat \<Rightarrow> bool" where
  "isHeader l i \<longleftrightarrow> i = 0 \<and> CHR ''/'' \<notin> set l"

definition nth_opt :: "'a list \<Rightarrow> nat \<Rightarrow> 'a option" where
  "nth_opt xs n = (if n < length xs then Some (xs ! n) else None)"

text \<open>The callback of the second \<^verbatim>\<open>.map\<close>, on the row \<^verbatim>\<open>[type, name, url]\<close> at index
  \<^verbatim>\<open>i\<close>. A row always has a first field (the split of a line has at least one piece);
  the equation for the empty row is there for totality only.\<close>

fun manifest_row :: "env \<Rightarrow> string \<Rightarrow> nat \<Rightarrow> string list \<Rightarrow> error + AbapObject" where
  "manifest_row e f i (type # rest) =
     (let name = nth_opt rest 0; url = nth_opt rest 1 in
      if \<not> supportedType e type
      then Inl (CLIError (''Objects of type '' @ type @ '' are not supportes near line ''
                  @ show_nat i @ '' of file '' @ f))
      else if \<not> truthy_opt url
      then Inl (CLIError (''URL not specified for object '' @ type @ '' '' @ tpl name
                  @ '' in file '' @ f))
      else Inr \<lparr>otype = type, oname = tpl name, ourl = url\<rparr>)"
| "manifest_row e f i [] =
     Inl (CLIError (''Objects of type undefined are not supportes near line ''
            @ show_nat i @ '' of file '' @ f))"

text \<open>\<^verbatim>\<open>.map\<close> with a callback that may throw: the first throw ends it.\<close>

fun map_throw :: "('a \<Rightarrow> error + 'b) \<Rightarrow> 'a list \<Rightarrow> error + 'b list" where
  "map_throw g [] = Inr []"
| "map_throw g (x # xs) =
     (case g x of
        Inl err \<Rightarrow> Inl err
      | Inr y \<Rightarrow> (case map_throw g xs of Inl err \<Rightarrow> Inl err | Inr ys \<Rightarrow> Inr (y # ys)))"

text \<open>\<^verbatim>\<open>.split("\n").filter((l, i) => l && !isHeader(l, i)).map(x => x.split(/\s+/, 3))\<close>\<close>

definition manifest_rows :: "string \<Rightarrow> string list list" where
  "manifest_rows content =
     map (\<lambda>x. take 3 (split_ws x))
       (map snd (filter (\<lambda>(i, l). truthy l \<and> \<not> isHeader l i)
                   (enumerate 0 (split_lines content))))"

definition manifest_objects :: "env \<Rightarrow> string \<Rightarrow> string \<Rightarrow> error + AbapObject list" where
  "manifest_objects e f content =
     map_throw (\<lambda>(i, row). manifest_row e f i row) (enumerate 0 (manifest_rows content))"

text \<open>The discovery query of \<^verbatim>\<open>lib/abap\<close> reports progress through the callback
  \<^verbatim>\<open>message => cli.action.start(message)\<close> before it returns or throws.\<close>

definition list_query :: "env \<Rightarrow> string \<Rightarrow> string \<Rightarrow> bool option \<Rightarrow> AbapObject list prog" where
  "list_query e type name rec s =
     (case lib_list e (trace s) type name rec of
        (progress, r) \<Rightarrow>
          (r, s\<lparr>trace := trace s @ CallList type name rec # map (\<lambda>m. ActionStart m None) progress\<rparr>))"

definition list_objects :: "env \<Rightarrow> string \<Rightarrow> string \<Rightarrow> ListOptions \<Rightarrow> AbapObject list prog" where
  "list_objects e type name options =
     thn (when_do ((truthy name \<or> truthy type) \<and> truthy_opt (list_file options))
            (cli_error
               ''Can't specify an object name or type and a list file at the same time''))
         (case (if truthy_opt (list_file options) then list_file options else None) of
            Some f \<Rightarrow>
              bnd (call (CallReadFile f) (\<lambda>tr. readFileSync e tr f))
                (\<lambda>content. case manifest_objects e f content of
                    Inl err \<Rightarrow> throw err
                  | Inr objects \<Rightarrow> ret objects)
          | None \<Rightarrow>
              thn (when_do (\<not> truthy name \<or> \<not> truthy type)
                     (cli_error ''Object type and name required unless a list file is provided''))
             (bnd (list_query e type name (list_recursive options))
                (\<lambda>objects. thn (emit (ActionStop (Some ''Done''))) (ret objects))))"

section \<open>Observations on a trace\<close>

text \<open>The effects a program added to the trace.\<close>

definition new_events :: "state \<Rightarrow> state \<Rightarrow> event list" where
  "new_events s s' = drop (length (trace s)) (trace s')"

fun is_lock :: "event \<Rightarrow> bool" where
  "is_lock (CallLock u) = True"
| "is_lock _ = False"

fun is_unlock :: "event \<Rightarrow> bool" where
  "is_unlock (CallUnLock u h) = True"
| "is_unlock _ = False"

fun is_write :: "event \<Rightarrow> bool" where
  "is_write (CallSetObjectSource u t h tid) = True"
| "is_write _ = False"

fun is_activate :: "event \<Rightarrow> bool" where
  "is_activate (CallActivate n u m) = True"
| "is_activate (CallActivateObjects obs) = True"
| "is_activate _ = False"

fun is_read :: "event \<Rightarrow> bool" where
  "is_read (CallGetObjectSource u) = True"
| "is_read _ = False"

text \<open>A call that takes, changes or releases something on the remote side.\<close>

definition is_change :: "event \<Rightarrow> bool" where
  "is_change ev \<longleftrightarrow> is_lock ev \<or> is_write ev \<or> is_unlock ev \<or> is_activate ev"

text \<open>The unlock calls for one source URL.\<close>

definition unlocks_of :: "string \<Rightarrow> event list \<Rightarrow> event list" where
  "unlocks_of u tr = filter (\<lambda>ev. case ev of CallUnLock u' h \<Rightarrow> u' = u | _ \<Rightarrow> False) tr"

text \<open>The includes whose pipeline has started: each starts with one read.\<close>

definition includes_seen :: "event list \<Rightarrow> nat" where
  "includes_seen tr = length (filter is_read tr)"


text \<open>Every run of a program, from any state, is a step in the relation \<^verbatim>\<open>R\<close>,
  whether it returns or throws.\<close>

definition preserves :: "(state \<Rightarrow> state \<Rightarrow> bool) \<Rightarrow> 'a prog \<Rightarrow> bool" where
  "preserves R m \<longleftrightarrow> (\<forall>s r s'. m s = (r, s') \<longrightarrow> R s s')"


text \<open>The counters of the status are in order: no more includes written than processed,
  no more processed than started.\<close>

definition counters_ok :: "state \<Rightarrow> bool" where
  "counters_ok s \<longleftrightarrow>
     writtenIncludes (status s) \<le> processedIncludes (status s)
     \<and> processedIncludes (status s) \<le> includes_seen (trace s)"

text \<open>A row of the manifest that passes both checks: three fields, a supported type and
  a url that is not empty; and the descriptor it stands for.\<close>

definition valid_row :: "env \<Rightarrow> string list \<Rightarrow> bool" where
  "valid_row e row \<longleftrightarrow> (case row of [t, n, u] \<Rightarrow> supportedType e t \<and> truthy u | _ \<Rightarrow> False)"

definition row_object :: "string list \<Rightarrow> AbapObject" where
  "row_object row = \<lparr>otype = row ! 0, oname = row ! 1, ourl = Some (row ! 2)\<rparr>"

section \<open>Example inputs\<close>

text \<open>A newly constructed \<^verbatim>\<open>Main\<close>: nothing processed, no effect yet.\<close>

definition fresh_status :: Status where
  "fresh_status = \<lparr>currentObject = None, currentInclude = None, processedObjects = 0,
     processedIncludes = 0, writtenIncludes = 0\<rparr>"

definition fresh :: state where
  "fresh = \<lparr>status = fresh_status, stateful = Stateless, trace = []\<rparr>"

text \<open>A program include that is not local, its lock, and a remote side where every
  call succeeds: the pretty printer changes the source, activation leaves nothing
  inactive.\<close>

definition inclA :: AbapInclude where
  "inclA = \<lparr>itype = ''PROG/P'', iname = ''ZA'', sourceUrl = ''/za/source/main'', metaUrl = ''/za''\<rparr>"

definition lockA :: AdtLock where
  "lockA = \<lparr>LOCK_HANDLE = ''H1'', CORRNR = ''T1'', IS_LOCAL = False\<rparr>"

definition active_ok :: ActivationResult where
  "active_ok = \<lparr>success = True, messages = [], inactive = []\<rparr>"

definition objA :: AbapObject where
  "objA = \<lparr>otype = ''PROG/P'', oname = ''ZA'', ourl = Some ''/za''\<rparr>"

definition env0 :: env where
  "env0 = \<lparr>
     client_lock = (\<lambda>tr u. Inr lockA),
     client_unLock = (\<lambda>tr u h. Inr ()),
     client_setObjectSource = (\<lambda>tr u t h tid. Inr ()),
     client_activate = (\<lambda>tr n u m. Inr active_ok),
     client_activate_objects = (\<lambda>tr obs. Inr active_ok),
     client_dropSession = (\<lambda>tr. Inr ()),
     clone_mainPrograms = (\<lambda>tr u. Inr [''/main'']),
     clone_getObjectSource = (\<lambda>tr u. Inr ''report za.''),
     clone_prettyPrinter = (\<lambda>tr src. Inr ''REPORT za.''),
     inactiveObjectsInResults = (\<lambda>r. concat (map (\<lambda>x. case x of Some ob \<Rightarrow> [ob] | None \<Rightarrow> []) (inactive r))),
     lib_expand = (\<lambda>tr ob. Inr [inclA]),
     lib_list = (\<lambda>tr t n r. ([], Inr [objA])),
     supportedType = (\<lambda>t. t \<in> set [''PROG/P'', ''CLAS/OC'', ''FUGR/F'']),
     loadAbapLintConfig = (\<lambda>tr cfg. Inr ()),
     abapLintprettyPrint = (\<lambda>tr incl src. Inr src),
     ABAPLINT_DEFAULT = ''.'',
     readFileSync = (\<lambda>tr f. Inr ''''),
     abapLint = None\<rparr>"

definition real_run :: Options where
  "real_run = \<lparr>opt_test = False, opt_transport = Some ''T1''\<rparr>"

definition dry_run :: Options where
  "dry_run = \<lparr>opt_test = True, opt_transport = Some ''T1''\<rparr>"

text \<open>Remote sides that refuse one step: the write, or the activation.\<close>

definition env_write_fails :: env where
  "env_write_fails = env0\<lparr>client_setObjectSource :=
     (\<lambda>tr u t h tid. Inl (AdtException (Some ''ExceptionResourceSaveFailure'') ''syntax error''))\<rparr>"


text \<open>Remote sides that refuse the lock: for a generated include, and for an include
  another user holds.\<close>

definition err_generated :: error where
  "err_generated = AdtException (Some ''ExceptionResourceNoAccess'') ''Object is generated''"

definition err_contended :: error where
  "err_contended = AdtException (Some ''ExceptionResourceNoAccess'') ''Object is Locked by DEVELOPER''"

definition env_generated :: env where
  "env_generated = env0\<lparr>client_lock := (\<lambda>tr u. Inl err_generated)\<rparr>"

definition env_contended :: env where
  "env_contended = env0\<lparr>client_lock := (\<lambda>tr u. Inl err_contended)\<rparr>"

text \<open>The state of a fresh run on \<^term>\<open>inclA\<close> after the read and the formatting.\<close>

definition formattedA :: state where
  "formattedA = \<lparr>status = fresh_status\<lparr>currentInclude := Some inclA\<rparr>, stateful = Stateless,
     trace = [ActionStart (CHR 0x09 # ''PROG/P ZA'') (Some '' Reading...''),
              CallGetObjectSource ''/za/source/main'',
              ActionStart (CHR 0x09 # ''PROG/P ZA'') (Some '' Formatting...''),
              CallPrettyPrinter ''report za.'']\<rparr>"

text \<open>A remote side that remembers the write: once the source has been written, a
  read returns the formatted text.\<close>

definition env_rerun :: env where
  "env_rerun = env0\<lparr>clone_getObjectSource :=
     (\<lambda>tr u. if list_ex is_write tr then Inr ''REPORT za.'' else Inr ''report za.'')\<rparr>"


text \<open>A class include whose first activation leaves two objects inactive, and a remote
  side that answers the follow-up activation of those two with a failure.\<close>

definition inclC :: AbapInclude where
  "inclC = \<lparr>itype = ''CLAS/I'', iname = ''ZCL'', sourceUrl = ''/zcl/source/main'', metaUrl = ''/zcl''\<rparr>"

definition active_partial :: ActivationResult where
  "active_partial = \<lparr>success = True, messages = [], inactive = [Some ''/zcl'', None, Some ''/zif'']\<rparr>"

definition active_failed :: ActivationResult where
  "active_failed = \<lparr>success = False, messages = [''ZIF has errors''], inactive = [Some ''/zif'']\<rparr>"

definition env_partial :: env where
  "env_partial = env0\<lparr>client_activate := (\<lambda>tr n u m. Inr active_partial),
     client_activate_objects := (\<lambda>tr obs. Inr active_failed)\<rparr>"

text \<open>A remote side that fails to release the lock, and a lock that came back without
  a handle.\<close>

definition err_unlock :: error where
  "err_unlock = AdtException (Some ''ExceptionResourceNotFound'') ''lock handle unknown''"

definition env_unlock_fails :: env where
  "env_unlock_fails = env0\<lparr>client_unLock := (\<lambda>tr u h. Inl err_unlock)\<rparr>"

definition lock_no_handle :: AdtLock where
  "lock_no_handle = \<lparr>LOCK_HANDLE = '''', CORRNR = ''T1'', IS_LOCAL = False\<rparr>"


text \<open>A remote side where the expansion of an object fails and the session cannot be
  dropped either; and a \<^verbatim>\<open>Main\<close> whose lint configuration cannot be loaded.\<close>

definition err_expand :: error where
  "err_expand = AdtException (Some ''ExceptionResourceNotFound'') ''ZA does not exist''"

definition err_drop :: error where
  "err_drop = AdtException None ''connection reset''"

definition env_expand_fails :: env where
  "env_expand_fails = env0\<lparr>lib_expand := (\<lambda>tr ob. Inl err_expand)\<rparr>"

definition env_drop_fails :: env where
  "env_drop_fails = env0\<lparr>lib_expand := (\<lambda>tr ob. Inl err_expand),
     client_dropSession := (\<lambda>tr. Inl err_drop)\<rparr>"

definition err_config :: error where
  "err_config = TypeError ''abaplint.json is not valid''"

definition env_lint_fails :: env where
  "env_lint_fails = env0\<lparr>abapLint := Some ''abaplint.json'',
     loadAbapLintConfig := (\<lambda>tr cfg. Inl err_config)\<rparr>"

text \<open>The states in which the object loop of a real run on \<^term>\<open>objA\<close> stops: when the
  expansion fails, and when the write of \<^term>\<open>inclA\<close> fails.\<close>

definition expand_failed :: state where
  "expand_failed = \<lparr>status = fresh_status\<lparr>currentObject := Some objA\<rparr>, stateful = Stateful,
     trace = [ActionStart ''PROG/P ZA'' None, CallExpand objA]\<rparr>"

definition write_failed :: state where
  "write_failed = \<lparr>status = fresh_status\<lparr>currentObject := Some objA, currentInclude := Some inclA\<rparr>,
     stateful = Stateful,
     trace = [ActionStart ''PROG/P ZA'' None, CallExpand objA,
              ActionStart (tick @ ''PROG/P ZA'') None, ActionStop None,
              ActionStart (CHR 0x09 # ''PROG/P ZA'') (Some '' Reading...''),
              CallGetObjectSource ''/za/source/main'',
              ActionStart (CHR 0x09 # ''PROG/P ZA'') (Some '' Formatting...''),
              CallPrettyPrinter ''report za.'',
              ActionStart (CHR 0x09 # ''PROG/P ZA'') (Some '' Locking...''),
              CallLock ''/za/source/main'',
              ActionStart (CHR 0x09 # ''PROG/P ZA'') (Some '' Writing...''),
              CallSetObjectSource ''/za/source/main'' ''REPORT za.'' ''H1'' (Some ''T1'')]\<rparr>"

text \<open>The state of a fresh run on \<^term>\<open>inclA\<close> when the lock has been granted and the
  write step begins.\<close>

definition lockedA :: state where
  "lockedA = formattedA\<lparr>trace := trace formattedA @
     [ActionStart (CHR 0x09 # ''PROG/P ZA'') (Some '' Locking...''), CallLock ''/za/source/main'']\<rparr>"

text \<open>A file system with one manifest, and the manifests of the examples.\<close>

definition env_manifest :: "string \<Rightarrow> env" where
  "env_manifest content = env0\<lparr>readFileSync := (\<lambda>tr f. Inr content),
     supportedType := (\<lambda>t. t \<in> set [''PROG'', ''PROG/P'', ''CLAS/OC''])\<rparr>"

definition from_file :: ListOptions where
  "from_file = \<lparr>list_file = Some ''objs.txt'', list_recursive = None\<rparr>"

definition manifest_header :: string where
  "manifest_header = ''HEADER'' @ [CHR 0x0A] @ ''PROG name1 url1'' @ [CHR 0x0A] @ ''PROG name2 url2''"

definition manifest_no_header :: string where
  "manifest_no_header = ''PROG/P ZA /za'' @ [CHR 0x0A] @ [CHR 0x0A] @ ''CLAS/OC ZCL /zcl'' @ [CHR 0x0A]"

definition manifest_bad_first :: string where
  "manifest_bad_first = ''DEVC/K ZPKG /zpkg'' @ [CHR 0x0A] @ ''PROG/P ZA /za''"

definition manifest_no_url_1 :: string where
  "manifest_no_url_1 = ''PROG/P ZA''"

definition manifest_no_url_3 :: string where
  "manifest_no_url_3 = ''TYPE NAME URL'' @ [CHR 0x0A] @ ''CLAS/OC ZCL /zcl'' @ [CHR 0x0A] @ ''PROG/P ZA''"

definition manifest_bad_type_4 :: string where
  "manifest_bad_type_4 = ''TYPE NAME URL'' @ [CHR 0x0A, CHR 0x0A, CHR 0x0A] @ ''XXXX ZA /za''"

section \<open>Properties\<close>

lemmas prog_defs = ret_def throw_def bnd_def thn_def catch_def finally_do_def emit_def call_def
  modify_status_def set_stateful_def cli_error_def when_do_def

subsection \<open>Transport validation\<close>

text \<open>
  Claim C3. \<^verbatim>\<open>validateTransport\<close> raises in exactly three cases, no two of which can
  hold together: the lock is local and a tracking id is supplied; the lock is not local
  and no tracking id is supplied; the lock is not local, carries a tracking id of its own,
  and the supplied tracking id differs from it. Each case raises its own message and
  every other combination returns without error; the state is left as it was. An id
  is supplied, and a lock carries one, when the string is present and not empty.
\<close>

theorem validateTransport_matrix:
  "(IS_LOCAL lock \<and> truthy_opt tid \<longrightarrow>
      validateTransport lock key tid s =
        (Inl (CLIError (''Object '' @ key @ '' is local, can't use '' @ tpl tid)), s))
   \<and> (\<not> IS_LOCAL lock \<and> \<not> truthy_opt tid \<longrightarrow>
      validateTransport lock key tid s =
        (Inl (CLIError (''Object '' @ key @ '' requires a transport ''
           @ (if truthy (CORRNR lock) then ''(locked in '' @ CORRNR lock @ '')'' else ''''))), s))
   \<and> (\<not> IS_LOCAL lock \<and> truthy (CORRNR lock) \<and> truthy_opt tid \<and> tid \<noteq> Some (CORRNR lock) \<longrightarrow>
      validateTransport lock key tid s =
        (Inl (CLIError (''Object '' @ key @ '' locked in transport '' @ CORRNR lock
           @ '' can't use '' @ tpl tid)), s))
   \<and> (IS_LOCAL lock \<and> \<not> truthy_opt tid \<longrightarrow> validateTransport lock key tid s = (Inr (), s))
   \<and> (\<not> IS_LOCAL lock \<and> \<not> truthy (CORRNR lock) \<and> truthy_opt tid \<longrightarrow>
      validateTransport lock key tid s = (Inr (), s))
   \<and> (\<not> IS_LOCAL lock \<and> truthy (CORRNR lock) \<and> tid = Some (CORRNR lock) \<longrightarrow>
      validateTransport lock key tid s = (Inr (), s))
   \<and> (isl (fst (validateTransport lock key tid s)) \<longleftrightarrow>
        (IS_LOCAL lock \<and> truthy_opt tid)
      \<or> (\<not> IS_LOCAL lock \<and> \<not> truthy_opt tid)
      \<or> (\<not> IS_LOCAL lock \<and> truthy (CORRNR lock) \<and> truthy_opt tid \<and> tid \<noteq> Some (CORRNR lock)))"
  by (auto simp: validateTransport_def prog_defs)

theorem validateTransport_matrix_witness:
  "validateTransport \<lparr>LOCK_HANDLE = ''H'', CORRNR = '''', IS_LOCAL = True\<rparr> ''PROG/P ZA'' (Some ''T1'') fresh
     = (Inl (CLIError ''Object PROG/P ZA is local, can't use T1''), fresh)
   \<and> validateTransport \<lparr>LOCK_HANDLE = ''H'', CORRNR = ''T2'', IS_LOCAL = False\<rparr> ''PROG/P ZA'' None fresh
     = (Inl (CLIError ''Object PROG/P ZA requires a transport (locked in T2)''), fresh)
   \<and> validateTransport \<lparr>LOCK_HANDLE = ''H'', CORRNR = '''', IS_LOCAL = False\<rparr> ''PROG/P ZA'' None fresh
     = (Inl (CLIError ''Object PROG/P ZA requires a transport ''), fresh)
   \<and> validateTransport \<lparr>LOCK_HANDLE = ''H'', CORRNR = ''T2'', IS_LOCAL = False\<rparr> ''PROG/P ZA'' (Some ''T1'') fresh
     = (Inl (CLIError ''Object PROG/P ZA locked in transport T2 can't use T1''), fresh)
   \<and> validateTransport \<lparr>LOCK_HANDLE = ''H'', CORRNR = '''', IS_LOCAL = True\<rparr> ''PROG/P ZA'' None fresh
     = (Inr (), fresh)
   \<and> validateTransport \<lparr>LOCK_HANDLE = ''H'', CORRNR = '''', IS_LOCAL = False\<rparr> ''PROG/P ZA'' (Some ''T1'') fresh
     = (Inr (), fresh)
   \<and> validateTransport \<lparr>LOCK_HANDLE = ''H'', CORRNR = ''T1'', IS_LOCAL = False\<rparr> ''PROG/P ZA'' (Some ''T1'') fresh
     = (Inr (), fresh)"
  using validateTransport_matrix [of "\<lparr>LOCK_HANDLE = ''H'', CORRNR = '''', IS_LOCAL = True\<rparr>" "Some ''T1''" "''PROG/P ZA''" fresh]
    validateTransport_matrix [of "\<lparr>LOCK_HANDLE = ''H'', CORRNR = ''T2'', IS_LOCAL = False\<rparr>" None "''PROG/P ZA''" fresh]
    validateTransport_matrix [of "\<lparr>LOCK_HANDLE = ''H'', CORRNR = '''', IS_LOCAL = False\<rparr>" None "''PROG/P ZA''" fresh]
    validateTransport_matrix [of "\<lparr>LOCK_HANDLE = ''H'', CORRNR = ''T2'', IS_LOCAL = False\<rparr>" "Some ''T1''" "''PROG/P ZA''" fresh]
    validateTransport_matrix [of "\<lparr>LOCK_HANDLE = ''H'', CORRNR = '''', IS_LOCAL = True\<rparr>" None "''PROG/P ZA''" fresh]
    validateTransport_matrix [of "\<lparr>LOCK_HANDLE = ''H'', CORRNR = '''', IS_LOCAL = False\<rparr>" "Some ''T1''" "''PROG/P ZA''" fresh]
    validateTransport_matrix [of "\<lparr>LOCK_HANDLE = ''H'', CORRNR = ''T1'', IS_LOCAL = False\<rparr>" "Some ''T1''" "''PROG/P ZA''" fresh]
  by (simp add: truthy_def)

subsection \<open>Helper facts\<close>

lemma new_events_append: "trace s' = trace s @ xs \<Longrightarrow> new_events s s' = xs"
  by (simp add: new_events_def)

lemma validateTransport_state: "snd (validateTransport lock key tid s) = s"
  by (auto simp: validateTransport_def prog_defs)

lemma validateTransport_result:
  "validateTransport lock key tid s = (fst (validateTransport lock key tid s), s)"
  using validateTransport_state [of lock key tid s]
  by (cases "validateTransport lock key tid s") auto

text \<open>Activation only adds calls of its own, and leaves the status alone.\<close>

lemma activate_effects:
  assumes "activate e incl s = (r, s')"
  shows "status s' = status s \<and> stateful s' = stateful s
    \<and> (\<exists>new. trace s' = trace s @ new \<and> unlocks_of u new = [] \<and> filter is_write new = []
          \<and> filter is_lock new = [] \<and> filter is_read new = [] \<and> filter is_unlock new = [])"
  using assms
  by (auto simp: activate_def prog_defs Let_def unlocks_of_def split: if_splits sum.splits list.splits)

subsection \<open>Releasing the lock\<close>




subsection \<open>Lock refusals\<close>

text \<open>The regular expression \<^verbatim>\<open>/locked/i\<close> as modelled: the lower-cased message has
  the word somewhere inside.\<close>

lemma contains_iff: "contains pat s \<longleftrightarrow> (\<exists>pre post. s = pre @ pat @ post)"
proof (induction s)
  case Nil
  then show ?case by auto
next
  case (Cons c cs)
  show ?case
  proof
    assume "contains pat (c # cs)"
    then consider "take (length pat) (c # cs) = pat" | "contains pat cs" by auto
    then show "\<exists>pre post. c # cs = pre @ pat @ post"
    proof cases
      case 1
      then have "c # cs = [] @ pat @ drop (length pat) (c # cs)"
        by (metis append_Nil append_take_drop_id)
      then show ?thesis by blast
    next
      case 2
      then obtain pre post where "cs = pre @ pat @ post" using Cons.IH by blast
      then have "c # cs = (c # pre) @ pat @ post" by simp
      then show ?thesis by blast
    qed
  next
    assume "\<exists>pre post. c # cs = pre @ pat @ post"
    then obtain pre post where eq: "c # cs = pre @ pat @ post" by blast
    show "contains pat (c # cs)"
    proof (cases pre)
      case Nil
      then have "take (length pat) (c # cs) = pat" using eq by simp
      then show ?thesis by simp
    next
      case (Cons p ps)
      then have "cs = ps @ pat @ post" using eq by simp
      then have "contains pat cs" using Cons.IH by blast
      then show ?thesis by simp
    qed
  qed
qed

lemma matches_locked_iff:
  "matches_locked msg \<longleftrightarrow> (\<exists>pre post. map lower_ascii msg = pre @ ''locked'' @ post)"
  by (simp add: matches_locked_def contains_iff)

lemma format_effects:
  assumes "format e incl src s = (r, s')"
  shows "status s' = status s \<and> stateful s' = stateful s
    \<and> (\<exists>ev. trace s' = trace s @ [ev] \<and> \<not> is_change ev \<and> \<not> is_read ev)"
  using assms by (auto simp: format_def prog_defs is_change_def split: if_splits)

text \<open>
  Claim C2. \<^verbatim>\<open>tryLock\<close> returns a lock when the remote side grants one; it returns
  absent exactly when the refusal has the type \<^verbatim>\<open>ExceptionResourceNoAccess\<close> and its
  message does not match \<^verbatim>\<open>/locked/i\<close>; every other refusal is thrown as it came. In
  \<^verbatim>\<open>processInclude\<close>, on a changed include, the absent lock is a skip: no exception,
  the include counts as processed and \<^verbatim>\<open>writtenIncludes\<close> stays as it was; any other
  refusal leaves \<^verbatim>\<open>processInclude\<close> as the same error.
\<close>

theorem lock_refusal_classified:
  fixes e :: env and incl :: AbapInclude and options :: Options and s t :: state
  defines "key \<equiv> incl_key incl"
  defines "url \<equiv> sourceUrl incl"
  defines "t' \<equiv> t\<lparr>trace := trace t @ [CallLock url]\<rparr>"
  defines "s1 \<equiv> s\<lparr>status := (status s)\<lparr>currentInclude := Some incl\<rparr>,
     trace := trace s @ [ActionStart (CHR 0x09 # key) (Some '' Reading...'')]\<rparr>"
  defines "s2 \<equiv> s1\<lparr>trace := trace s1 @ [CallGetObjectSource url,
     ActionStart (CHR 0x09 # key) (Some '' Formatting...'')]\<rparr>"
  defines "skip err \<equiv> err_type err = Some ''ExceptionResourceNoAccess''
     \<and> \<not> matches_locked (err_message err)"
  shows "(client_lock e (trace t) url = Inr l \<longrightarrow> tryLock e url t = (Inr (Some l), t'))
    \<and> (client_lock e (trace t) url = Inl err \<and> skip err \<longrightarrow> tryLock e url t = (Inr None, t'))
    \<and> (client_lock e (trace t) url = Inl err \<and> \<not> skip err \<longrightarrow> tryLock e url t = (Inl err, t'))
    \<and> (clone_getObjectSource e (trace s1) url = Inr src
        \<and> format e incl src s2 = (Inr formatted, s3) \<and> formatted \<noteq> src
        \<and> client_lock e (trace s3 @ [ActionStart (CHR 0x09 # key) (Some '' Locking...'')]) url = Inl err
       \<longrightarrow> processInclude e incl options s =
          (if skip err
           then (Inr (), s3\<lparr>status := (status s)\<lparr>processedIncludes := processedIncludes (status s) + 1,
                    currentInclude := None\<rparr>,
                  trace := trace s3 @ [ActionStart (CHR 0x09 # key) (Some '' Locking...''),
                    CallLock url,
                    ActionStart (CHR 0x09 # tick @ key @ '' is generated, skipped'') None,
                    ActionStop None]\<rparr>)
           else (Inl err, s3\<lparr>trace := trace s3 @ [ActionStart (CHR 0x09 # key) (Some '' Locking...''),
                    CallLock url]\<rparr>))
         \<and> writtenIncludes (status (snd (processInclude e incl options s))) = writtenIncludes (status s))"
proof -
  have lock: "(client_lock e (trace t) url = Inr l \<longrightarrow> tryLock e url t = (Inr (Some l), t'))
    \<and> (client_lock e (trace t) url = Inl err \<and> skip err \<longrightarrow> tryLock e url t = (Inr None, t'))
    \<and> (client_lock e (trace t) url = Inl err \<and> \<not> skip err \<longrightarrow> tryLock e url t = (Inl err, t'))"
    by (auto simp: tryLock_def prog_defs t'_def skip_def)
  have incl: "processInclude e incl options s =
          (if skip err
           then (Inr (), s3\<lparr>status := (status s)\<lparr>processedIncludes := processedIncludes (status s) + 1,
                    currentInclude := None\<rparr>,
                  trace := trace s3 @ [ActionStart (CHR 0x09 # key) (Some '' Locking...''),
                    CallLock url,
                    ActionStart (CHR 0x09 # tick @ key @ '' is generated, skipped'') None,
                    ActionStop None]\<rparr>)
           else (Inl err, s3\<lparr>trace := trace s3 @ [ActionStart (CHR 0x09 # key) (Some '' Locking...''),
                    CallLock url]\<rparr>))
         \<and> writtenIncludes (status (snd (processInclude e incl options s))) = writtenIncludes (status s)"
    if rd: "clone_getObjectSource e (trace s1) url = Inr src"
      and fm: "format e incl src s2 = (Inr formatted, s3)" and ne: "formatted \<noteq> src"
      and lk: "client_lock e (trace s3 @ [ActionStart (CHR 0x09 # key) (Some '' Locking...'')]) url = Inl err"
  proof -
    from format_effects [OF fm] have st3: "status s3 = status s2"
      by simp
    show ?thesis
      using rd fm ne lk st3
      by (auto simp: processInclude_def tryLock_def Let_def prog_defs s1_def s2_def key_def url_def skip_def)
  qed
  show ?thesis using lock incl by blast
qed

theorem lock_refusal_classified_witness:
  "tryLock env0 ''/za/source/main'' fresh = (Inr (Some lockA), fresh\<lparr>trace := [CallLock ''/za/source/main'']\<rparr>)
   \<and> tryLock env_generated ''/za/source/main'' fresh = (Inr None, fresh\<lparr>trace := [CallLock ''/za/source/main'']\<rparr>)
   \<and> tryLock env_contended ''/za/source/main'' fresh = (Inl err_contended, fresh\<lparr>trace := [CallLock ''/za/source/main'']\<rparr>)
   \<and> fst (processInclude env_generated inclA real_run fresh) = Inr ()
   \<and> writtenIncludes (status (snd (processInclude env_generated inclA real_run fresh))) = 0
   \<and> processedIncludes (status (snd (processInclude env_generated inclA real_run fresh))) = 1
   \<and> fst (processInclude env_contended inclA real_run fresh) = Inl err_contended"
  using
    lock_refusal_classified [where e = env0 and incl = inclA and t = fresh and l = lockA]
    lock_refusal_classified [where e = env_generated and incl = inclA and t = fresh and err = err_generated
      and options = real_run and s = fresh and src = "''report za.''" and formatted = "''REPORT za.''"
      and ?s3.0 = formattedA]
    lock_refusal_classified [where e = env_contended and incl = inclA and t = fresh and err = err_contended
      and options = real_run and s = fresh and src = "''report za.''" and formatted = "''REPORT za.''"
      and ?s3.0 = formattedA]
  by (simp add: env0_def env_generated_def env_contended_def err_generated_def err_contended_def
        inclA_def fresh_def fresh_status_def formattedA_def incl_key_def format_def call_def
        matches_locked_def lower_ascii_def)

subsection \<open>Unchanged includes\<close>

lemmas run_defs = processObjects_def processObject_def processInclude_def write_incl_def
  tryLock_def validateTransport_def activate_def format_def load_lint_config_def cleanup_def
  report_last_def stats_def prog_defs Let_def incl_key_def truthy_def

lemmas example_defs = env0_def inclA_def objA_def lockA_def active_ok_def real_run_def dry_run_def
  fresh_def fresh_status_def





lemma thn_emit: "thn (emit ev) k s = k (s\<lparr>trace := trace s @ [ev]\<rparr>)"
  by (simp add: thn_def bnd_def emit_def)

lemma thn_modify_status: "thn (modify_status f) k s = k (s\<lparr>status := f (status s)\<rparr>)"
  by (simp add: thn_def bnd_def modify_status_def)

lemma bnd_call:
  "bnd (call ev answer) f s =
     (case answer (trace s) of
        Inl err \<Rightarrow> (Inl err, s\<lparr>trace := trace s @ [ev]\<rparr>)
      | Inr x \<Rightarrow> f x (s\<lparr>trace := trace s @ [ev]\<rparr>))"
  by (simp add: bnd_def call_def split: sum.splits)

lemma bnd_result:
  "m s = (r, s') \<Longrightarrow> bnd m f s = (case r of Inl err \<Rightarrow> (Inl err, s') | Inr x \<Rightarrow> f x s')"
  by (simp add: bnd_def split: sum.splits)

lemma thn_result:
  "m s = (r, s') \<Longrightarrow> thn m k s = (case r of Inl err \<Rightarrow> (Inl err, s') | Inr x \<Rightarrow> k s')"
  by (simp add: thn_def bnd_def split: sum.splits)

text \<open>\<^verbatim>\<open>processInclude\<close> up to the formatting, and what follows it.\<close>

lemma processInclude_read_fails:
  assumes "clone_getObjectSource e
      (trace s @ [ActionStart (CHR 0x09 # incl_key incl) (Some '' Reading...'')]) (sourceUrl incl) = Inl err"
  shows "processInclude e incl options s =
     (Inl err, s\<lparr>status := (status s)\<lparr>currentInclude := Some incl\<rparr>,
        trace := trace s @ [ActionStart (CHR 0x09 # incl_key incl) (Some '' Reading...''),
          CallGetObjectSource (sourceUrl incl)]\<rparr>)"
  using assms by (simp add: processInclude_def Let_def thn_emit thn_modify_status bnd_call)

lemma processInclude_format_fails:
  assumes rd: "clone_getObjectSource e
      (trace s @ [ActionStart (CHR 0x09 # incl_key incl) (Some '' Reading...'')]) (sourceUrl incl) = Inr src"
    and fm: "format e incl src
      (s\<lparr>status := (status s)\<lparr>currentInclude := Some incl\<rparr>,
         trace := trace s @ [ActionStart (CHR 0x09 # incl_key incl) (Some '' Reading...''),
           CallGetObjectSource (sourceUrl incl),
           ActionStart (CHR 0x09 # incl_key incl) (Some '' Formatting...'')]\<rparr>) = (Inl err, s3)"
  shows "processInclude e incl options s = (Inl err, s3)"
  using rd
  by (simp add: processInclude_def Let_def thn_emit thn_modify_status bnd_call
       bnd_result [where m = "format e incl src", OF fm])

lemma processInclude_formatted:
  assumes rd: "clone_getObjectSource e
      (trace s @ [ActionStart (CHR 0x09 # incl_key incl) (Some '' Reading...'')]) (sourceUrl incl) = Inr src"
    and fm: "format e incl src
      (s\<lparr>status := (status s)\<lparr>currentInclude := Some incl\<rparr>,
         trace := trace s @ [ActionStart (CHR 0x09 # incl_key incl) (Some '' Reading...''),
           CallGetObjectSource (sourceUrl incl),
           ActionStart (CHR 0x09 # incl_key incl) (Some '' Formatting...'')]\<rparr>) = (Inr formatted, s3)"
  shows "processInclude e incl options s =
     thn (if formatted = src
          then emit (ActionStart (CHR 0x09 # tick @ incl_key incl @ '' (unchanged)'') None)
          else thn (emit (ActionStart (CHR 0x09 # incl_key incl) (Some '' Locking...'')))
              (bnd (tryLock e (sourceUrl incl))
                 (\<lambda>lock. case lock of
                    Some l \<Rightarrow> write_incl e incl formatted l options
                  | None \<Rightarrow>
                      emit (ActionStart
                        (CHR 0x09 # tick @ incl_key incl @ '' is generated, skipped'') None))))
    (thn (emit (ActionStop None))
    (thn (modify_status (\<lambda>st. st\<lparr>processedIncludes := processedIncludes st + 1\<rparr>))
         (modify_status (\<lambda>st. st\<lparr>currentInclude := None\<rparr>)))) s3"
  using rd
  by (simp add: processInclude_def Let_def thn_emit thn_modify_status bnd_call
       bnd_result [where m = "format e incl src", OF fm])

lemma preservesI: "(\<And>s r s'. m s = (r, s') \<Longrightarrow> R s s') \<Longrightarrow> preserves R m"
  by (simp add: preserves_def)

lemma preservesD: "preserves R m \<Longrightarrow> m s = (r, s') \<Longrightarrow> R s s'"
  by (simp add: preserves_def)

lemma preserves_ret: "reflp R \<Longrightarrow> preserves R (ret x)"
  by (auto simp: preserves_def ret_def reflp_def)

lemma preserves_throw: "reflp R \<Longrightarrow> preserves R (throw err)"
  by (auto simp: preserves_def throw_def reflp_def)

lemma preserves_bnd:
  assumes "transp R" and m: "preserves R m" and f: "\<And>x. preserves R (f x)"
  shows "preserves R (bnd m f)"
proof (rule preservesI)
  fix s r s' assume run: "bnd m f s = (r, s')"
  obtain r1 s1 where ms: "m s = (r1, s1)" by (cases "m s")
  have R1: "R s s1" using preservesD [OF m ms] .
  show "R s s'"
  proof (cases r1)
    case (Inl err)
    then show ?thesis using run ms R1 by (simp add: bnd_def)
  next
    case (Inr x)
    then have "f x s1 = (r, s')" using run ms by (simp add: bnd_def)
    then have "R s1 s'" using preservesD [OF f] by blast
    then show ?thesis using R1 \<open>transp R\<close> by (blast dest: transpD)
  qed
qed

lemma preserves_thn:
  "transp R \<Longrightarrow> preserves R m \<Longrightarrow> preserves R k \<Longrightarrow> preserves R (thn m k)"
  unfolding thn_def by (rule preserves_bnd)

lemma preserves_catch:
  assumes "transp R" and m: "preserves R m" and h: "\<And>err. preserves R (h err)"
  shows "preserves R (catch m h)"
proof (rule preservesI)
  fix s r s' assume run: "catch m h s = (r, s')"
  obtain r1 s1 where ms: "m s = (r1, s1)" by (cases "m s")
  have R1: "R s s1" using preservesD [OF m ms] .
  show "R s s'"
  proof (cases r1)
    case (Inr x)
    then show ?thesis using run ms R1 by (simp add: catch_def)
  next
    case (Inl err)
    then have "h err s1 = (r, s')" using run ms by (simp add: catch_def)
    then have "R s1 s'" using preservesD [OF h] by blast
    then show ?thesis using R1 \<open>transp R\<close> by (blast dest: transpD)
  qed
qed

lemma preserves_finally:
  assumes "transp R" and m: "preserves R m" and fin: "preserves R fin"
  shows "preserves R (finally_do m fin)"
proof (rule preservesI)
  fix s r s' assume run: "finally_do m fin s = (r, s')"
  obtain r1 s1 where ms: "m s = (r1, s1)" by (cases "m s")
  obtain r2 s2 where fs: "fin s1 = (r2, s2)" by (cases "fin s1")
  have "R s s1" using preservesD [OF m ms] .
  moreover have "R s1 s2" using preservesD [OF fin fs] .
  moreover have "s' = s2" using run ms fs by (simp add: finally_do_def split: sum.splits)
  ultimately show "R s s'" using \<open>transp R\<close> by (blast dest: transpD)
qed

lemma preserves_forEach:
  assumes "reflp R" and "transp R" and f: "\<And>x. x \<in> set xs \<Longrightarrow> preserves R (f x)"
  shows "preserves R (forEach f xs)"
  using f
proof (induction xs)
  case Nil
  then show ?case using \<open>reflp R\<close> by (simp add: preserves_ret)
next
  case (Cons x xs)
  have "preserves R (f x)" using Cons.prems by simp
  moreover have "preserves R (forEach f xs)" using Cons.IH Cons.prems by simp
  ultimately show ?case using \<open>transp R\<close> by (simp add: preserves_thn)
qed

lemma preserves_when_do: "reflp R \<Longrightarrow> preserves R m \<Longrightarrow> preserves R (when_do b m)"
  by (simp add: when_do_def preserves_ret)

















lemma first_run_changes:
  "filter is_change (trace (snd (processObjects env_rerun [objA] real_run fresh))) =
     [CallLock ''/za/source/main'',
      CallSetObjectSource ''/za/source/main'' ''REPORT za.'' ''H1'' (Some ''T1''),
      CallUnLock ''/za/source/main'' ''H1'',
      CallActivate ''ZA'' ''/za/source/main'' None]"
  by (simp add: run_defs example_defs env_rerun_def is_change_def)





subsection \<open>Activation\<close>

text \<open>
  Claim C6. For an include that is not of type \<^verbatim>\<open>PROG/I\<close>, \<^verbatim>\<open>activate\<close> activates it
  directly. When the result reports nothing inactive, that result is returned after
  the one call. When it reports objects left inactive, exactly one more activation
  call follows, on the inactive objects of that result (as the library's
  \<^verbatim>\<open>inactiveObjectsInResults\<close> extracts them), and whatever that second call answers is
  the outcome: there is no third call, whatever the second result reports. A first
  call that fails is thrown as it came.
\<close>

theorem activate_single_retry:
  fixes e :: env and incl :: AbapInclude and s :: state
  defines "first \<equiv> CallActivate (iname incl) (sourceUrl incl) None"
  assumes plain: "itype incl \<noteq> ''PROG/I''"
  shows "(client_activate e (trace s) (iname incl) (sourceUrl incl) None = Inl err
        \<longrightarrow> activate e incl s = (Inl err, s\<lparr>trace := trace s @ [first]\<rparr>))
    \<and> (client_activate e (trace s) (iname incl) (sourceUrl incl) None = Inr active
          \<and> inactive active = []
        \<longrightarrow> activate e incl s = (Inr active, s\<lparr>trace := trace s @ [first]\<rparr>))
    \<and> (client_activate e (trace s) (iname incl) (sourceUrl incl) None = Inr active
          \<and> inactive active \<noteq> []
        \<longrightarrow> activate e incl s =
             (client_activate_objects e (trace s @ [first]) (inactiveObjectsInResults e active),
              s\<lparr>trace := trace s @ [first, CallActivateObjects (inactiveObjectsInResults e active)]\<rparr>)
           \<and> length (filter is_activate (new_events s (snd (activate e incl s)))) = 2)"
  using plain by (auto simp: activate_def prog_defs Let_def first_def new_events_def)

theorem activate_single_retry_witness:
  "activate env_partial inclC fresh =
     (Inr active_failed,
      fresh\<lparr>trace := [CallActivate ''ZCL'' ''/zcl/source/main'' None,
                       CallActivateObjects [''/zcl'', ''/zif'']]\<rparr>)
   \<and> activate env0 inclC fresh =
     (Inr active_ok, fresh\<lparr>trace := [CallActivate ''ZCL'' ''/zcl/source/main'' None]\<rparr>)"
  using
    activate_single_retry [where e = env_partial and incl = inclC and s = fresh
      and active = active_partial and err = "TypeError []"]
    activate_single_retry [where e = env0 and incl = inclC and s = fresh
      and active = active_ok and err = "TypeError []"]
  by (simp add: env_partial_def env0_def inclC_def active_partial_def active_ok_def fresh_def)


subsection \<open>Dry run\<close>

text \<open>
  Claim C7. With \<^verbatim>\<open>test = true\<close>, \<^verbatim>\<open>write\<close> issues no \<^verbatim>\<open>setObjectSource\<close> and no
  activate call, but the check of the lock handle and the transport validation run
  first all the same: a missing handle and a transport mismatch raise the same error,
  before any effect, in a dry run as in a real run. When both checks pass the unlock
  call is issued, right after the skipped write, and its failure is thrown.
\<close>

theorem dry_run_skips_remote_write:
  fixes e :: env and incl :: AbapInclude and lock :: AdtLock and tid :: "string option"
    and s :: state
  defines "key \<equiv> incl_key incl"
  defines "dry \<equiv> \<lparr>opt_test = True, opt_transport = tid\<rparr>"
  defines "real \<equiv> \<lparr>opt_test = False, opt_transport = tid\<rparr>"
  defines "writing \<equiv> ActionStart (CHR 0x09 # key) (Some '' Writing...'')"
  defines "unlocking \<equiv> ActionStart (CHR 0x09 # key) (Some '' Unlocking...'')"
  defines "unlock \<equiv> CallUnLock (sourceUrl incl) (LOCK_HANDLE lock)"
  shows "(\<not> truthy (LOCK_HANDLE lock)
        \<longrightarrow> write_incl e incl formatted lock dry s = (Inl (CLIError (''Failed to lock '' @ key)), s)
          \<and> write_incl e incl formatted lock real s = (Inl (CLIError (''Failed to lock '' @ key)), s))
    \<and> (truthy (LOCK_HANDLE lock) \<and> validateTransport lock key tid s = (Inl verr, s)
        \<longrightarrow> write_incl e incl formatted lock dry s = (Inl verr, s)
          \<and> write_incl e incl formatted lock real s = (Inl verr, s))
    \<and> (truthy (LOCK_HANDLE lock) \<and> validateTransport lock key tid s = (Inr (), s)
          \<and> client_unLock e (trace s @ [writing, unlocking]) (sourceUrl incl) (LOCK_HANDLE lock) = Inl uerr
        \<longrightarrow> write_incl e incl formatted lock dry s =
             (Inl uerr, s\<lparr>trace := trace s @ [writing, unlocking, unlock]\<rparr>))
    \<and> (truthy (LOCK_HANDLE lock) \<and> validateTransport lock key tid s = (Inr (), s)
          \<and> client_unLock e (trace s @ [writing, unlocking]) (sourceUrl incl) (LOCK_HANDLE lock) = Inr ()
        \<longrightarrow> write_incl e incl formatted lock dry s =
             (Inr (), s\<lparr>status := (status s)\<lparr>writtenIncludes := writtenIncludes (status s) + 1\<rparr>,
                trace := trace s @ [writing, unlocking, unlock,
                  ActionStart (CHR 0x09 # key) (Some '' Activating...''),
                  ActionStart (CHR 0x09 # tick @ key) None]\<rparr>))
    \<and> filter is_write (new_events s (snd (write_incl e incl formatted lock dry s))) = []
    \<and> filter is_activate (new_events s (snd (write_incl e incl formatted lock dry s))) = []"
proof -
  have vt: "validateTransport lock key tid s = (fst (validateTransport lock key tid s), s)"
    by (rule validateTransport_result)
  show ?thesis
    using vt
    by (cases "fst (validateTransport lock key tid s)")
       (auto simp: write_incl_def thn_def bnd_def when_do_def ret_def emit_def call_def
          cli_error_def throw_def modify_status_def Let_def new_events_def
          key_def dry_def real_def writing_def unlocking_def unlock_def
        split: sum.splits)
qed

theorem dry_run_skips_remote_write_witness:
  "write_incl env0 inclA ''REPORT za.'' lock_no_handle \<lparr>opt_test = True, opt_transport = Some ''T1''\<rparr> fresh
     = (Inl (CLIError ''Failed to lock PROG/P ZA''), fresh)
   \<and> write_incl env0 inclA ''REPORT za.'' lockA \<lparr>opt_test = True, opt_transport = Some ''T2''\<rparr> fresh
     = (Inl (CLIError ''Object PROG/P ZA locked in transport T1 can't use T2''), fresh)
   \<and> write_incl env0 inclA ''REPORT za.'' lockA \<lparr>opt_test = False, opt_transport = Some ''T2''\<rparr> fresh
     = (Inl (CLIError ''Object PROG/P ZA locked in transport T1 can't use T2''), fresh)
   \<and> write_incl env_unlock_fails inclA ''REPORT za.'' lockA \<lparr>opt_test = True, opt_transport = Some ''T1''\<rparr> fresh
     = (Inl err_unlock,
        fresh\<lparr>trace := [ActionStart (CHR 0x09 # ''PROG/P ZA'') (Some '' Writing...''),
          ActionStart (CHR 0x09 # ''PROG/P ZA'') (Some '' Unlocking...''),
          CallUnLock ''/za/source/main'' ''H1'']\<rparr>)
   \<and> write_incl env0 inclA ''REPORT za.'' lockA \<lparr>opt_test = True, opt_transport = Some ''T1''\<rparr> fresh
     = (Inr (),
        fresh\<lparr>status := fresh_status\<lparr>writtenIncludes := 1\<rparr>,
          trace := [ActionStart (CHR 0x09 # ''PROG/P ZA'') (Some '' Writing...''),
          ActionStart (CHR 0x09 # ''PROG/P ZA'') (Some '' Unlocking...''),
          CallUnLock ''/za/source/main'' ''H1'',
          ActionStart (CHR 0x09 # ''PROG/P ZA'') (Some '' Activating...''),
          ActionStart (CHR 0x09 # tick @ ''PROG/P ZA'') None]\<rparr>)"
  using
    dry_run_skips_remote_write [where e = env0 and incl = inclA and formatted = "''REPORT za.''"
      and lock = lock_no_handle and tid = "Some ''T1''" and s = fresh
      and verr = "TypeError []" and uerr = "TypeError []"]
    dry_run_skips_remote_write [where e = env0 and incl = inclA and formatted = "''REPORT za.''"
      and lock = lockA and tid = "Some ''T2''" and s = fresh
      and verr = "CLIError ''Object PROG/P ZA locked in transport T1 can't use T2''"
      and uerr = "TypeError []"]
    dry_run_skips_remote_write [where e = env_unlock_fails and incl = inclA and formatted = "''REPORT za.''"
      and lock = lockA and tid = "Some ''T1''" and s = fresh
      and verr = "TypeError []" and uerr = err_unlock]
    dry_run_skips_remote_write [where e = env0 and incl = inclA and formatted = "''REPORT za.''"
      and lock = lockA and tid = "Some ''T1''" and s = fresh
      and verr = "TypeError []" and uerr = "TypeError []"]
  by (simp add: validateTransport_def prog_defs truthy_def lockA_def lock_no_handle_def inclA_def
        env0_def env_unlock_fails_def incl_key_def fresh_def fresh_status_def)

lemma dry_run_end_to_end:
  "fst (processObjects env0 [objA] dry_run fresh) = Inr ()
   \<and> filter is_change (trace (snd (processObjects env0 [objA] dry_run fresh))) =
       [CallLock ''/za/source/main'', CallUnLock ''/za/source/main'' ''H1'']
   \<and> filter (\<lambda>ev. case ev of Log m \<Rightarrow> True | _ \<Rightarrow> False)
         (trace (snd (processObjects env0 [objA] dry_run fresh))) =
       [Log (bold (CHR 0x0A # ''1 of 1 objects / 1 includes processed 1 written'' @ [CHR 0x0A]))]"
  by (simp add: run_defs example_defs is_change_def stats_msg_def show_nat.simps digit_def)





subsection \<open>Cleanup and failure report\<close>

text \<open>
  Claim C5, as the code has it. Nothing is loaded, and nothing can fail, before the
  \<^verbatim>\<open>try\<close> unless a lint configuration other than the default is set. Once that
  statement has passed, \<^verbatim>\<open>processObjects\<close> always ends with the cleanup, whether the
  object loop returned or threw: it prints the summary, puts the session back to
  stateless and issues \<^verbatim>\<open>dropSession\<close>. When the loop threw, the failure is reported
  first: the last object, and the last include if one is set. The caller then gets the
  error of the loop as it was thrown, unless \<^verbatim>\<open>dropSession\<close> itself fails: then the
  caller gets the error of \<^verbatim>\<open>dropSession\<close>. A failure to load the lint configuration is
  thrown before the \<^verbatim>\<open>try\<close>: no summary, no cleanup.
\<close>

theorem processObjects_cleanup:
  fixes e :: env and objects :: "AbapObject list" and options :: Options and s s0 s2 :: state
  defines "report \<equiv>
     (case currentInclude (status s2) of
        Some ci \<Rightarrow> [Log (''Last include '' @ itype ci @ '' '' @ iname ci)]
      | None \<Rightarrow> [])"
  defines "reported \<equiv> (\<lambda>r :: error + unit. case r of
        Inr u \<Rightarrow> []
      | Inl err \<Rightarrow>
          [ActionStop (Some ''failed!''),
           Log (''Last object '' @ tpl (map_option otype (currentObject (status s2))) @ '' ''
                  @ tpl (map_option oname (currentObject (status s2))))] @ report)"
  defines "summary \<equiv> Log (bold (stats_msg (status s2) (length objects)))"
  shows "(abapLint e = None \<or> abapLint e = Some [] \<or> abapLint e = Some (ABAPLINT_DEFAULT e)
       \<longrightarrow> load_lint_config e s = (Inr (), s))
    \<and> (load_lint_config e s = (Inl cerr, s0) \<longrightarrow> processObjects e objects options s = (Inl cerr, s0))
    \<and> (load_lint_config e s = (Inr (), s0)
        \<and> forEach (processObject e options) objects (s0\<lparr>stateful := Stateful\<rparr>) = (r, s2)
       \<longrightarrow> processObjects e objects options s =
            (case client_dropSession e (trace s2 @ reported r @ [summary]) of
               Inl derr \<Rightarrow> Inl derr
             | Inr u \<Rightarrow> r,
             s2\<lparr>stateful := Stateless,
                trace := trace s2 @ reported r @ [summary, CallDropSession]\<rparr>))"
  by (auto simp: processObjects_def cleanup_def report_last_def stats_def prog_defs Let_def
        report_def reported_def summary_def load_lint_config_def truthy_def
      split: sum.splits option.splits)

lemma loop_examples:
  "forEach (processObject env0 real_run) [] (fresh\<lparr>stateful := Stateful\<rparr>)
     = (Inr (), fresh\<lparr>stateful := Stateful\<rparr>)"
  "forEach (processObject env_expand_fails real_run) [objA] (fresh\<lparr>stateful := Stateful\<rparr>)
     = (Inl err_expand, expand_failed)"
  "forEach (processObject env_write_fails real_run) [objA] (fresh\<lparr>stateful := Stateful\<rparr>)
     = (Inl (AdtException (Some ''ExceptionResourceSaveFailure'') ''syntax error''), write_failed)"
  by (simp_all add: run_defs example_defs env_expand_fails_def env_write_fails_def
        expand_failed_def write_failed_def)

lemma lint_fails_example:
  "load_lint_config env_lint_fails fresh =
      (Inl err_config, fresh\<lparr>trace := [CallLoadAbapLintConfig ''abaplint.json'']\<rparr>)"
  by (simp add: load_lint_config_def env_lint_fails_def env0_def prog_defs truthy_def fresh_def)

theorem processObjects_cleanup_witness:
  "processObjects env0 [] real_run fresh =
     (Inr (), fresh\<lparr>trace :=
        [Log (bold (CHR 0x0A # ''0 of 0 objects / 0 includes processed 0 written'' @ [CHR 0x0A])),
         CallDropSession]\<rparr>)
   \<and> processObjects env_expand_fails [objA] real_run fresh =
     (Inl err_expand,
      expand_failed\<lparr>stateful := Stateless, trace := trace expand_failed @
          [ActionStop (Some ''failed!''), Log ''Last object PROG/P ZA'',
           Log (bold (CHR 0x0A # ''0 of 1 objects / 0 includes processed 0 written'' @ [CHR 0x0A])),
           CallDropSession]\<rparr>)
   \<and> processObjects env_write_fails [objA] real_run fresh =
     (Inl (AdtException (Some ''ExceptionResourceSaveFailure'') ''syntax error''),
      write_failed\<lparr>stateful := Stateless, trace := trace write_failed @
          [ActionStop (Some ''failed!''), Log ''Last object PROG/P ZA'', Log ''Last include PROG/P ZA'',
           Log (bold (CHR 0x0A # ''0 of 1 objects / 0 includes processed 0 written'' @ [CHR 0x0A])),
           CallDropSession]\<rparr>)
   \<and> processObjects env_lint_fails [objA] real_run fresh =
       (Inl err_config, fresh\<lparr>trace := [CallLoadAbapLintConfig ''abaplint.json'']\<rparr>)"
proof -
  have cfg: "load_lint_config ev fresh = (Inr (), fresh)" if "abapLint ev = None" for ev
    using processObjects_cleanup [where e = ev and s = fresh] that by blast
  have none: "abapLint env0 = None" "abapLint env_expand_fails = None" "abapLint env_write_fails = None"
    by (simp_all add: env0_def env_expand_fails_def env_write_fails_def)
  note a = processObjects_cleanup [where e = env0 and objects = "[]" and options = real_run,
      THEN conjunct2, THEN conjunct2, rule_format, OF conjI, OF cfg [OF none(1)] loop_examples(1)]
  note b = processObjects_cleanup [where e = env_expand_fails and objects = "[objA]" and options = real_run,
      THEN conjunct2, THEN conjunct2, rule_format, OF conjI, OF cfg [OF none(2)] loop_examples(2)]
  note c = processObjects_cleanup [where e = env_write_fails and objects = "[objA]" and options = real_run,
      THEN conjunct2, THEN conjunct2, rule_format, OF conjI, OF cfg [OF none(3)] loop_examples(3)]
  note d = processObjects_cleanup [where e = env_lint_fails and objects = "[objA]" and options = real_run,
      THEN conjunct2, THEN conjunct1, rule_format, OF lint_fails_example]
  have "processObjects env0 [] real_run fresh =
     (Inr (), fresh\<lparr>trace :=
        [Log (bold (CHR 0x0A # ''0 of 0 objects / 0 includes processed 0 written'' @ [CHR 0x0A])),
         CallDropSession]\<rparr>)"
    unfolding a
    by (simp add: env0_def fresh_def fresh_status_def stats_msg_def show_nat.simps digit_def)
  moreover have "processObjects env_expand_fails [objA] real_run fresh =
     (Inl err_expand,
      expand_failed\<lparr>stateful := Stateless, trace := trace expand_failed @
          [ActionStop (Some ''failed!''), Log ''Last object PROG/P ZA'',
           Log (bold (CHR 0x0A # ''0 of 1 objects / 0 includes processed 0 written'' @ [CHR 0x0A])),
           CallDropSession]\<rparr>)"
    unfolding b
    by (simp add: env_expand_fails_def env0_def expand_failed_def objA_def fresh_status_def
          stats_msg_def show_nat.simps digit_def)
  moreover have "processObjects env_write_fails [objA] real_run fresh =
     (Inl (AdtException (Some ''ExceptionResourceSaveFailure'') ''syntax error''),
      write_failed\<lparr>stateful := Stateless, trace := trace write_failed @
          [ActionStop (Some ''failed!''), Log ''Last object PROG/P ZA'', Log ''Last include PROG/P ZA'',
           Log (bold (CHR 0x0A # ''0 of 1 objects / 0 includes processed 0 written'' @ [CHR 0x0A])),
           CallDropSession]\<rparr>)"
    unfolding c
    by (simp add: env_write_fails_def env0_def write_failed_def objA_def inclA_def fresh_status_def
          stats_msg_def show_nat.simps digit_def)
  ultimately show ?thesis using d by blast
qed

text \<open>
  Claim C5 as stated fails twice: when \<^verbatim>\<open>dropSession\<close> fails in the cleanup, the caller
  does not get the error that escaped the loop; and when the lint configuration cannot
  be loaded, \<^verbatim>\<open>processObjects\<close> fails without summary and without cleanup.
\<close>

theorem cleanup_failure_hides_error:
  "fst (forEach (processObject env_drop_fails real_run) [objA] (fresh\<lparr>stateful := Stateful\<rparr>))
      = Inl err_expand
   \<and> fst (processObjects env_drop_fails [objA] real_run fresh) = Inl err_drop
   \<and> err_drop \<noteq> err_expand
   \<and> processObjects env_lint_fails [objA] real_run fresh =
       (Inl err_config, fresh\<lparr>trace := [CallLoadAbapLintConfig ''abaplint.json'']\<rparr>)"
  by (simp add: run_defs example_defs env_drop_fails_def env_lint_fails_def err_drop_def err_expand_def)


subsection \<open>The status between includes\<close>

lemma tryLock_effects:
  assumes "tryLock e url s = (r, s')"
  shows "status s' = status s \<and> trace s' = trace s @ [CallLock url]"
  using assms by (auto simp: tryLock_def prog_defs split: sum.splits if_splits)

lemma write_incl_effects:
  assumes run: "write_incl e incl formatted lock options s = (r, s')"
  shows "status s' = (status s)\<lparr>writtenIncludes :=
            writtenIncludes (status s) + (if r = Inr () then 1 else 0)\<rparr>
    \<and> (\<exists>new. trace s' = trace s @ new \<and> filter is_read new = [])"
proof -
  let ?key = "incl_key incl"
  have vt: "validateTransport lock ?key (opt_transport options) s
      = (fst (validateTransport lock ?key (opt_transport options) s), s)"
    by (rule validateTransport_result)
  obtain ra sa where act: "activate e incl (s\<lparr>trace := trace s @
            [ActionStart (CHR 0x09 # ?key) (Some '' Writing...''),
             CallSetObjectSource (sourceUrl incl) formatted (LOCK_HANDLE lock) (opt_transport options),
             ActionStart (CHR 0x09 # ?key) (Some '' Unlocking...''),
             CallUnLock (sourceUrl incl) (LOCK_HANDLE lock),
             ActionStart (CHR 0x09 # ?key) (Some '' Activating...'')]\<rparr>) = (ra, sa)"
    by (cases "activate e incl (s\<lparr>trace := trace s @
            [ActionStart (CHR 0x09 # ?key) (Some '' Writing...''),
             CallSetObjectSource (sourceUrl incl) formatted (LOCK_HANDLE lock) (opt_transport options),
             ActionStart (CHR 0x09 # ?key) (Some '' Unlocking...''),
             CallUnLock (sourceUrl incl) (LOCK_HANDLE lock),
             ActionStart (CHR 0x09 # ?key) (Some '' Activating...'')]\<rparr>)")
  from activate_effects [OF act, of "sourceUrl incl"] obtain new where
    sa: "status sa = status s" "trace sa = trace s @
            [ActionStart (CHR 0x09 # ?key) (Some '' Writing...''),
             CallSetObjectSource (sourceUrl incl) formatted (LOCK_HANDLE lock) (opt_transport options),
             ActionStart (CHR 0x09 # ?key) (Some '' Unlocking...''),
             CallUnLock (sourceUrl incl) (LOCK_HANDLE lock),
             ActionStart (CHR 0x09 # ?key) (Some '' Activating...'')] @ new"
        "filter is_read new = []"
    by auto
  show ?thesis
    using run vt act sa
    by (cases "fst (validateTransport lock ?key (opt_transport options) s)")
       (auto simp: write_incl_def thn_def bnd_def when_do_def ret_def emit_def call_def
          cli_error_def throw_def modify_status_def Let_def
        split: sum.splits if_splits)
qed

lemma includes_seen_append:
  "includes_seen (xs @ ys) = includes_seen xs + includes_seen ys"
  by (simp add: includes_seen_def)

lemma processInclude_effects:
  assumes run: "processInclude e incl options s = (r, s')"
  shows "includes_seen (trace s') = includes_seen (trace s) + 1
    \<and> currentObject (status s') = currentObject (status s)
    \<and> processedObjects (status s') = processedObjects (status s)
    \<and> (r = Inr () \<longrightarrow>
          currentInclude (status s') = None
          \<and> processedIncludes (status s') = processedIncludes (status s) + 1
          \<and> writtenIncludes (status s) \<le> writtenIncludes (status s')
          \<and> writtenIncludes (status s') \<le> writtenIncludes (status s) + 1)
    \<and> (r \<noteq> Inr () \<longrightarrow>
          currentInclude (status s') = Some incl
          \<and> processedIncludes (status s') = processedIncludes (status s)
          \<and> writtenIncludes (status s') = writtenIncludes (status s))"
proof (cases "clone_getObjectSource e (trace s @ [ActionStart (CHR 0x09 # incl_key incl) (Some '' Reading...'')]) (sourceUrl incl)")
  case (Inl err)
  show ?thesis
    using run processInclude_read_fails [OF Inl, of options]
    by (auto simp: includes_seen_def)
next
  case (Inr src)
  let ?s2 = "s\<lparr>status := (status s)\<lparr>currentInclude := Some incl\<rparr>,
     trace := trace s @ [ActionStart (CHR 0x09 # incl_key incl) (Some '' Reading...''),
       CallGetObjectSource (sourceUrl incl),
       ActionStart (CHR 0x09 # incl_key incl) (Some '' Formatting...'')]\<rparr>"
  obtain rf s3 where fm: "format e incl src ?s2 = (rf, s3)" by (cases "format e incl src ?s2")
  from format_effects [OF fm] obtain ev where
    s3: "status s3 = (status s)\<lparr>currentInclude := Some incl\<rparr>"
      "trace s3 = trace s @ [ActionStart (CHR 0x09 # incl_key incl) (Some '' Reading...''),
       CallGetObjectSource (sourceUrl incl),
       ActionStart (CHR 0x09 # incl_key incl) (Some '' Formatting...''), ev]" "\<not> is_read ev"
    by auto
  have seen3: "includes_seen (trace s3) = includes_seen (trace s) + 1"
    using s3 by (simp add: includes_seen_def)
  show ?thesis
  proof (cases rf)
    case (Inl err)
    then have "r = Inl err" "s' = s3"
      using run processInclude_format_fails [OF Inr, where ?s3.0 = s3 and err = err and options = options] fm
      by simp_all
    then show ?thesis using s3 seen3 by simp
  next
    case fmt: (Inr formatted)
    note step = processInclude_formatted [OF Inr, where ?s3.0 = s3 and formatted = formatted
        and options = options]
    show ?thesis
    proof (cases "formatted = src")
      case True
      then have "r = Inr ()" "s' = s3\<lparr>status := (status s3)\<lparr>processedIncludes := processedIncludes (status s3) + 1,
           currentInclude := None\<rparr>,
         trace := trace s3 @ [ActionStart (CHR 0x09 # tick @ incl_key incl @ '' (unchanged)'') None,
           ActionStop None]\<rparr>"
        using run step fm fmt by (auto simp: thn_emit thn_modify_status modify_status_def)
      then show ?thesis using s3 seen3 by (simp add: includes_seen_append) (simp add: includes_seen_def)
    next
      case False
      let ?s4 = "s3\<lparr>trace := trace s3 @ [ActionStart (CHR 0x09 # incl_key incl) (Some '' Locking...'')]\<rparr>"
      obtain rl s5 where lk: "tryLock e (sourceUrl incl) ?s4 = (rl, s5)"
        by (cases "tryLock e (sourceUrl incl) ?s4")
      from tryLock_effects [OF lk] have s5: "status s5 = status s3"
        "trace s5 = trace s3 @ [ActionStart (CHR 0x09 # incl_key incl) (Some '' Locking...''),
          CallLock (sourceUrl incl)]"
        by simp_all
      have seen5: "includes_seen (trace s5) = includes_seen (trace s) + 1"
        using s5 seen3 by (simp add: includes_seen_append) (simp add: includes_seen_def)
      show ?thesis
      proof (cases rl)
        case (Inl err)
        then have "r = Inl err" "s' = s5"
          using run step fm fmt False lk by (auto simp: thn_def bnd_def emit_def)
        then show ?thesis using s5 s3 seen5 by simp
      next
        case (Inr lock)
        show ?thesis
        proof (cases lock)
          case None
          then have "r = Inr ()" "s' = s5\<lparr>status := (status s5)\<lparr>processedIncludes := processedIncludes (status s5) + 1,
               currentInclude := None\<rparr>,
             trace := trace s5 @ [ActionStart (CHR 0x09 # tick @ incl_key incl @ '' is generated, skipped'') None,
               ActionStop None]\<rparr>"
            using run step fm fmt False lk Inr
            by (auto simp: thn_def bnd_def emit_def modify_status_def)
          then show ?thesis using s5 s3 seen5
            by (simp add: includes_seen_append) (simp add: includes_seen_def)
        next
          case (Some l)
          obtain rw s6 where wr: "write_incl e incl formatted l options s5 = (rw, s6)"
            by (cases "write_incl e incl formatted l options s5")
          from write_incl_effects [OF wr] obtain new where
            s6: "status s6 = (status s5)\<lparr>writtenIncludes :=
                writtenIncludes (status s5) + (if rw = Inr () then 1 else 0)\<rparr>"
              "trace s6 = trace s5 @ new" "filter is_read new = []"
            by auto
          have seen6: "includes_seen (trace s6) = includes_seen (trace s) + 1"
            using s6 seen5 by (simp add: includes_seen_append) (simp add: includes_seen_def)
          show ?thesis
          proof (cases rw)
            case (Inl err)
            then have "r = Inl err" "s' = s6"
              using run step fm fmt False lk Inr Some wr by (auto simp: thn_def bnd_def emit_def)
            then show ?thesis using s6 s5 s3 seen6 Inl by simp
          next
            case ok: (Inr u)
            then have "r = Inr ()" "s' = s6\<lparr>status := (status s6)\<lparr>processedIncludes := processedIncludes (status s6) + 1,
                 currentInclude := None\<rparr>,
               trace := trace s6 @ [ActionStop None]\<rparr>"
              using run step fm fmt False lk Inr Some wr
              by (auto simp: thn_def bnd_def emit_def modify_status_def)
            then show ?thesis using s6 s5 s3 seen6 ok
              by (simp add: includes_seen_append) (simp add: includes_seen_def)
          qed
        qed
      qed
    qed
  qed
qed

lemma forEach_success:
  assumes step: "\<And>x s s'. x \<in> set xs \<Longrightarrow> f x s = (Inr (), s') \<Longrightarrow> I s \<Longrightarrow> I s'"
    and run: "forEach f xs s = (Inr (), s')" and start: "I s"
  shows "I s'"
  using step run start
proof (induction xs arbitrary: s)
  case Nil
  then show ?case by (simp add: ret_def)
next
  case (Cons x xs)
  obtain r1 s1 where fx: "f x s = (r1, s1)" by (cases "f x s")
  show ?case
  proof (cases r1)
    case (Inl err)
    then show ?thesis using Cons.prems(2) fx by (simp add: thn_def bnd_def)
  next
    case (Inr u)
    then have rest: "forEach f xs s1 = (Inr (), s')"
      using Cons.prems(2) fx by (simp add: thn_def bnd_def)
    have "I s1" using Cons.prems(1) [of x s s1] fx Inr Cons.prems(3) by simp
    show ?thesis
    proof (rule Cons.IH [OF _ rest \<open>I s1\<close>])
      fix y t t' assume "y \<in> set xs" "f y t = (Inr (), t')" "I t"
      then show "I t'" using Cons.prems(1) [of y t t'] by simp
    qed
  qed
qed

lemma reflp_counters: "reflp (\<lambda>s s'. counters_ok s \<longrightarrow> counters_ok s')"
  by (simp add: reflp_def)

lemma transp_counters: "transp (\<lambda>s s'. counters_ok s \<longrightarrow> counters_ok s')"
  by (rule transpI) simp

lemma counters_emit: "preserves (\<lambda>s s'. counters_ok s \<longrightarrow> counters_ok s') (emit ev)"
  by (rule preservesI) (auto simp: emit_def counters_ok_def includes_seen_def)

lemma counters_call: "preserves (\<lambda>s s'. counters_ok s \<longrightarrow> counters_ok s') (call ev answer)"
  by (rule preservesI) (auto simp: call_def counters_ok_def includes_seen_def)

lemma counters_modify_status:
  "(\<And>st. writtenIncludes (f st) = writtenIncludes st \<and> processedIncludes (f st) = processedIncludes st)
    \<Longrightarrow> preserves (\<lambda>s s'. counters_ok s \<longrightarrow> counters_ok s') (modify_status f)"
  by (rule preservesI) (auto simp: modify_status_def counters_ok_def)

lemma counters_set_stateful:
  "preserves (\<lambda>s s'. counters_ok s \<longrightarrow> counters_ok s') (set_stateful m)"
  by (rule preservesI) (auto simp: set_stateful_def counters_ok_def)

lemma counters_processInclude:
  "preserves (\<lambda>s s'. counters_ok s \<longrightarrow> counters_ok s') (processInclude e incl options)"
proof (rule preservesI, rule impI)
  fix s r s' assume run: "processInclude e incl options s = (r, s')" and ok: "counters_ok s"
  show "counters_ok s'"
    using processInclude_effects [OF run] ok
    by (cases "r = Inr ()") (auto simp: counters_ok_def)
qed

lemmas counters_rules =
  preserves_bnd [OF transp_counters] preserves_thn [OF transp_counters]
  preserves_catch [OF transp_counters] preserves_finally [OF transp_counters]
  preserves_forEach [OF reflp_counters transp_counters] preserves_when_do [OF reflp_counters]
  preserves_ret [OF reflp_counters] preserves_throw [OF reflp_counters]
  counters_emit counters_call counters_modify_status counters_set_stateful counters_processInclude

lemma counters_processObjects:
  "preserves (\<lambda>s s'. counters_ok s \<longrightarrow> counters_ok s') (processObjects e objects options)"
proof -
  have ob: "preserves (\<lambda>s s'. counters_ok s \<longrightarrow> counters_ok s') (processObject e options ob)" for ob
    unfolding processObject_def by (intro counters_rules) simp_all
  have rep: "preserves (\<lambda>s s'. counters_ok s \<longrightarrow> counters_ok s') (report_last err)" for err
    by (rule preservesI)
      (auto simp: report_last_def Let_def prog_defs counters_ok_def includes_seen_def
        split: option.splits)
  have cl: "preserves (\<lambda>s s'. counters_ok s \<longrightarrow> counters_ok s') (cleanup e n)" for n
    by (rule preservesI)
      (auto simp: cleanup_def stats_def prog_defs counters_ok_def includes_seen_def)
  have ld: "preserves (\<lambda>s s'. counters_ok s \<longrightarrow> counters_ok s') (load_lint_config e)"
    by (rule preservesI)
      (auto simp: load_lint_config_def prog_defs counters_ok_def includes_seen_def
        split: option.splits if_splits)
  show ?thesis
    unfolding processObjects_def by (intro counters_rules ob rep cl ld)
qed

lemma processObject_clears:
  assumes run: "processObject e options ob s = (Inr (), s')"
    and start: "currentInclude (status s) = None"
  shows "currentInclude (status s') = None"
proof (cases "lib_expand e (trace s @ [ActionStart (otype ob @ '' '' @ oname ob) None]) ob")
  case (Inl err)
  then show ?thesis using run
    by (simp add: processObject_def thn_emit thn_modify_status bnd_call)
next
  case (Inr incls)
  let ?t = "s\<lparr>status := (status s)\<lparr>currentObject := Some ob\<rparr>,
      trace := trace s @ [ActionStart (otype ob @ '' '' @ oname ob) None, CallExpand ob,
        ActionStart (tick @ otype ob @ '' '' @ oname ob) None, ActionStop None]\<rparr>"
  obtain rl t' where loop: "forEach (\<lambda>incl. processInclude e incl options) incls ?t = (rl, t')"
    by (cases "forEach (\<lambda>incl. processInclude e incl options) incls ?t")
  have eq: "processObject e options ob s =
      (case rl of Inl err \<Rightarrow> (Inl err, t')
       | Inr u \<Rightarrow> (Inr (), t'\<lparr>status := (status t')\<lparr>processedObjects := processedObjects (status t') + 1\<rparr>\<rparr>))"
    using Inr loop
    by (simp add: processObject_def thn_def bnd_def emit_def call_def modify_status_def
          split: sum.splits)
  show ?thesis
  proof (cases rl)
    case (Inl err)
    then show ?thesis using run eq by simp
  next
    case ok: (Inr u)
    then have loop': "forEach (\<lambda>incl. processInclude e incl options) incls ?t = (Inr (), t')"
      using loop by simp
    have "currentInclude (status t') = None"
    proof (rule forEach_success [OF _ loop'])
      show "currentInclude (status ?t) = None" using start by simp
    next
      fix x s s' assume "processInclude e x options s = (Inr (), s')"
      then show "currentInclude (status s') = None"
        using processInclude_effects by blast
    qed
    then show ?thesis using run eq ok by auto
  qed
qed

lemma processObjects_clears:
  assumes run: "processObjects e objects options s = (Inr (), s')"
    and start: "currentInclude (status s) = None"
  shows "currentInclude (status s') = None"
proof -
  obtain rc s0 where cfg: "load_lint_config e s = (rc, s0)" by (cases "load_lint_config e s")
  have s0: "status s0 = status s"
    using cfg by (auto simp: load_lint_config_def prog_defs split: option.splits if_splits)
  obtain rl s2 where loop: "forEach (processObject e options) objects (s0\<lparr>stateful := Stateful\<rparr>) = (rl, s2)"
    by (cases "forEach (processObject e options) objects (s0\<lparr>stateful := Stateful\<rparr>)")
  have ok: "rc = Inr ()" "rl = Inr ()" and st: "status s' = status s2"
    using run cfg loop
    by (auto simp: processObjects_def cleanup_def report_last_def stats_def prog_defs Let_def
          split: sum.splits option.splits)
  have "currentInclude (status s2) = None"
  proof (rule forEach_success [OF _ loop [unfolded ok]])
    show "currentInclude (status (s0\<lparr>stateful := Stateful\<rparr>)) = None" using start s0 by simp
  next
    fix x s s' assume "processObject e options x s = (Inr (), s')" "currentInclude (status s) = None"
    then show "currentInclude (status s') = None" by (rule processObject_clears)
  qed
  then show ?thesis using st by simp
qed

text \<open>
  Claim C8, as the code has it. \<^verbatim>\<open>processInclude\<close> sets \<^verbatim>\<open>currentInclude\<close> first; when
  it returns, the include is cleared and counted as processed, and at most one more
  include is written; when it throws, \<^verbatim>\<open>currentInclude\<close> stays on the failing include
  (the failure report reads it) and no counter has moved. So at every include boundary
  (before the first include, after each one, and at the end of \<^verbatim>\<open>processObjects\<close>,
  however it ends) \<^verbatim>\<open>writtenIncludes \<le> processedIncludes \<le>\<close> the includes started so
  far, given that it held at the start; and a run that starts with no current include
  and returns has none at its end. Inside the pipeline \<^verbatim>\<open>write\<close> counts the include as
  written before \<^verbatim>\<open>processInclude\<close> counts it as processed: there
  \<^verbatim>\<open>writtenIncludes\<close> is ahead by at most the one include in flight.
\<close>

theorem counters_between_includes:
  "(processInclude e incl options s = (r, s') \<longrightarrow>
       (counters_ok s \<longrightarrow> counters_ok s')
       \<and> (r = Inr () \<longrightarrow>
            currentInclude (status s') = None
            \<and> processedIncludes (status s') = processedIncludes (status s) + 1
            \<and> writtenIncludes (status s) \<le> writtenIncludes (status s')
            \<and> writtenIncludes (status s') \<le> writtenIncludes (status s) + 1)
       \<and> (r \<noteq> Inr () \<longrightarrow>
            currentInclude (status s') = Some incl
            \<and> processedIncludes (status s') = processedIncludes (status s)
            \<and> writtenIncludes (status s') = writtenIncludes (status s)))
   \<and> (write_incl e incl formatted lock options t = (rw, t') \<longrightarrow>
         processedIncludes (status t') = processedIncludes (status t)
         \<and> currentInclude (status t') = currentInclude (status t)
         \<and> writtenIncludes (status t') = writtenIncludes (status t) + (if rw = Inr () then 1 else 0))
   \<and> (processObjects e objects options u = (ro, u') \<longrightarrow>
         (counters_ok u \<longrightarrow> counters_ok u')
         \<and> (ro = Inr () \<and> currentInclude (status u) = None \<longrightarrow> currentInclude (status u') = None))"
proof (intro conjI impI)
  assume run: "processInclude e incl options s = (r, s')"
  note eff = processInclude_effects [OF run]
  {
    assume "counters_ok s"
    then show "counters_ok s'" using preservesD [OF counters_processInclude run] by simp
  }
  {
    assume "r = Inr ()"
    then show "currentInclude (status s') = None"
      and "processedIncludes (status s') = processedIncludes (status s) + 1"
      and "writtenIncludes (status s) \<le> writtenIncludes (status s')"
      and "writtenIncludes (status s') \<le> writtenIncludes (status s) + 1"
      using eff by simp_all
  }
  {
    assume "r \<noteq> Inr ()"
    then show "currentInclude (status s') = Some incl"
      and "processedIncludes (status s') = processedIncludes (status s)"
      and "writtenIncludes (status s') = writtenIncludes (status s)"
      using eff by simp_all
  }
next
  assume run: "write_incl e incl formatted lock options t = (rw, t')"
  from write_incl_effects [OF run]
  have st: "status t' = (status t)\<lparr>writtenIncludes :=
            writtenIncludes (status t) + (if rw = Inr () then 1 else 0)\<rparr>"
    by simp
  show "processedIncludes (status t') = processedIncludes (status t)"
    and "currentInclude (status t') = currentInclude (status t)"
    and "writtenIncludes (status t') = writtenIncludes (status t) + (if rw = Inr () then 1 else 0)"
    by (simp_all add: st)
next
  assume run: "processObjects e objects options u = (ro, u')"
  {
    assume "counters_ok u"
    then show "counters_ok u'" using preservesD [OF counters_processObjects run] by simp
  }
  {
    assume "ro = Inr () \<and> currentInclude (status u) = None"
    then show "currentInclude (status u') = None"
      using processObjects_clears [of e objects options u u'] run by simp
  }
qed

lemma run_examples:
  "fst (processInclude env0 inclA real_run fresh) = Inr ()"
  "fst (processInclude env_write_fails inclA real_run fresh) \<noteq> Inr ()"
  "fst (processObjects env0 [objA, objA] real_run fresh) = Inr ()"
  "fst (write_incl env0 inclA ''REPORT za.'' lockA real_run lockedA) = Inr ()"
  by (simp_all add: run_defs example_defs env_write_fails_def lockedA_def formattedA_def)

theorem counters_between_includes_witness:
  "counters_ok fresh
   \<and> counters_ok (snd (processInclude env0 inclA real_run fresh))
   \<and> currentInclude (status (snd (processInclude env0 inclA real_run fresh))) = None
   \<and> processedIncludes (status (snd (processInclude env0 inclA real_run fresh))) = 1
   \<and> currentInclude (status (snd (processInclude env_write_fails inclA real_run fresh))) = Some inclA
   \<and> processedIncludes (status (snd (processInclude env_write_fails inclA real_run fresh))) = 0
   \<and> writtenIncludes (status (snd (processInclude env_write_fails inclA real_run fresh))) = 0
   \<and> writtenIncludes (status (snd (write_incl env0 inclA ''REPORT za.'' lockA real_run lockedA))) = 1
   \<and> processedIncludes (status (snd (write_incl env0 inclA ''REPORT za.'' lockA real_run lockedA))) = 0
   \<and> counters_ok (snd (processObjects env0 [objA, objA] real_run fresh))
   \<and> currentInclude (status (snd (processObjects env0 [objA, objA] real_run fresh))) = None"
proof -
  have ok: "counters_ok fresh"
    by (simp add: counters_ok_def fresh_def fresh_status_def includes_seen_def)
  have st: "processedIncludes (status fresh) = 0" "writtenIncludes (status fresh) = 0"
    "currentInclude (status fresh) = None"
    "processedIncludes (status lockedA) = 0" "writtenIncludes (status lockedA) = 0"
    by (simp_all add: fresh_def fresh_status_def lockedA_def formattedA_def)
  note a = counters_between_includes [where e = env0 and incl = inclA and options = real_run and s = fresh
        and r = "fst (processInclude env0 inclA real_run fresh)"
        and s' = "snd (processInclude env0 inclA real_run fresh)"
        and formatted = "''REPORT za.''" and lock = lockA and t = lockedA
        and rw = "fst (write_incl env0 inclA ''REPORT za.'' lockA real_run lockedA)"
        and t' = "snd (write_incl env0 inclA ''REPORT za.'' lockA real_run lockedA)"
        and objects = "[objA, objA]" and u = fresh
        and ro = "fst (processObjects env0 [objA, objA] real_run fresh)"
        and u' = "snd (processObjects env0 [objA, objA] real_run fresh)", simplified]
  note b = counters_between_includes [where e = env_write_fails and incl = inclA and options = real_run
        and s = fresh
        and r = "fst (processInclude env_write_fails inclA real_run fresh)"
        and s' = "snd (processInclude env_write_fails inclA real_run fresh)"
        and formatted = "''REPORT za.''" and lock = lockA and t = fresh
        and rw = "fst (write_incl env_write_fails inclA ''REPORT za.'' lockA real_run fresh)"
        and t' = "snd (write_incl env_write_fails inclA ''REPORT za.'' lockA real_run fresh)"
        and objects = "[]" and u = fresh
        and ro = "fst (processObjects env_write_fails [] real_run fresh)"
        and u' = "snd (processObjects env_write_fails [] real_run fresh)", simplified]
  show ?thesis
    using ok st run_examples a b by simp
qed

text \<open>
  Claim C8 as stated fails inside the pipeline: in a fresh run, when \<^verbatim>\<open>write\<close> returns
  for the first changed include, that include is in flight, one include is written
  and none is processed yet.
\<close>

theorem written_ahead_of_processed:
  "processInclude env0 inclA real_run fresh =
     thn (write_incl env0 inclA ''REPORT za.'' lockA real_run)
       (thn (emit (ActionStop None))
       (thn (modify_status (\<lambda>st. st\<lparr>processedIncludes := processedIncludes st + 1\<rparr>))
            (modify_status (\<lambda>st. st\<lparr>currentInclude := None\<rparr>)))) lockedA
   \<and> fst (write_incl env0 inclA ''REPORT za.'' lockA real_run lockedA) = Inr ()
   \<and> currentInclude (status (snd (write_incl env0 inclA ''REPORT za.'' lockA real_run lockedA)))
       = Some inclA
   \<and> writtenIncludes (status (snd (write_incl env0 inclA ''REPORT za.'' lockA real_run lockedA))) = 1
   \<and> processedIncludes (status (snd (write_incl env0 inclA ''REPORT za.'' lockA real_run lockedA))) = 0
   \<and> \<not> counters_ok (snd (write_incl env0 inclA ''REPORT za.'' lockA real_run lockedA))"
  by (simp add: run_defs example_defs lockedA_def formattedA_def counters_ok_def)


subsection \<open>The manifest\<close>

lemma split_lines_nonempty: "split_lines s \<noteq> []"
  by (induction s) (auto split: list.splits)

lemma split_ws_nonempty: "split_ws s \<noteq> []"
  by (induction s rule: split_ws.induct) (auto split: list.splits)

lemma later_lines:
  "map snd (filter (\<lambda>(i, l). truthy l \<and> \<not> isHeader l i) (enumerate (Suc n) ls)) = filter truthy ls"
  by (induction ls arbitrary: n) (auto simp: isHeader_def)

lemma manifest_rows_lines:
  assumes "split_lines content = l0 # rest"
  shows "manifest_rows content =
     (if truthy l0 \<and> CHR ''/'' \<in> set l0 then [take 3 (split_ws l0)] else [])
       @ map (\<lambda>x. take 3 (split_ws x)) (filter truthy rest)"
proof -
  have "map snd (filter (\<lambda>(i, l). truthy l \<and> \<not> isHeader l i) (enumerate 0 (split_lines content)))
      = (if truthy l0 \<and> CHR ''/'' \<in> set l0 then [l0] else []) @ filter truthy rest"
    using assms later_lines [of 0 rest] by (simp add: isHeader_def)
  then show ?thesis
    unfolding manifest_rows_def by simp
qed

lemma valid_row_ok:
  "valid_row e row \<Longrightarrow> manifest_row e f i row = Inr (row_object row)"
  by (auto simp: valid_row_def row_object_def nth_opt_def split: list.splits)

lemma rows_all_valid:
  "\<forall>row \<in> set rows. valid_row e row \<Longrightarrow>
     map_throw (\<lambda>(i, row). manifest_row e f i row) (enumerate n rows) = Inr (map row_object rows)"
  by (induction rows arbitrary: n) (auto simp: valid_row_ok)

lemma rows_first_invalid:
  assumes "\<forall>row \<in> set good. valid_row e row" and "manifest_row e f (n + length good) bad = Inl err"
  shows "map_throw (\<lambda>(i, row). manifest_row e f i row) (enumerate n (good @ bad # later)) = Inl err"
  using assms
proof (induction good arbitrary: n)
  case Nil
  then show ?case by simp
next
  case (Cons g good)
  have "manifest_row e f (Suc n + length good) bad = Inl err" using Cons.prems(2) by simp
  then have "map_throw (\<lambda>(i, row). manifest_row e f i row) (enumerate (Suc n) (good @ bad # later)) = Inl err"
    using Cons.IH Cons.prems(1) by simp
  then show ?case using Cons.prems(1) by (simp add: valid_row_ok)
qed

text \<open>
  Claim C9, as the code has it. In manifest mode (a file, neither name nor type)
  \<^verbatim>\<open>list\<close> reads the file and parses its lines. The first line is dropped when it is
  empty or has no \<^verbatim>\<open>/\<close> in it, and is parsed as data when it has one; a later line is
  dropped only when it is empty. Each line kept gives a row of its first three
  fields. When every row has a supported type and a url, the result is the rows'
  descriptors in file order. Otherwise the first offending row ends the call: an
  unsupported type raises an error that names the type, the file and the row's place
  among the rows kept, counted from 0 (the message says near line); a missing url raises an error
  that names the type, the name and the file, and no line.
\<close>

theorem manifest_mode:
  fixes e :: env and f content :: string and s :: state
  defines "rows \<equiv> manifest_rows content"
  shows "(truthy f \<and> \<not> truthy name \<and> \<not> truthy type \<longrightarrow>
        list_objects e type name \<lparr>list_file = Some f, list_recursive = rec\<rparr> s =
          (case readFileSync e (trace s) f of
             Inl err \<Rightarrow> Inl err
           | Inr text \<Rightarrow> manifest_objects e f text,
           s\<lparr>trace := trace s @ [CallReadFile f]\<rparr>))
    \<and> (split_lines content = l0 # rest \<longrightarrow>
        rows = (if truthy l0 \<and> CHR ''/'' \<in> set l0 then [take 3 (split_ws l0)] else [])
                 @ map (\<lambda>x. take 3 (split_ws x)) (filter truthy rest))
    \<and> ((\<forall>row \<in> set rows. valid_row e row) \<longrightarrow>
        manifest_objects e f content = Inr (map row_object rows))
    \<and> (rows = good @ (t # flds) # later \<and> (\<forall>row \<in> set good. valid_row e row)
          \<and> \<not> supportedType e t \<longrightarrow>
        manifest_objects e f content =
          Inl (CLIError (''Objects of type '' @ t @ '' are not supportes near line ''
            @ show_nat (length good) @ '' of file '' @ f)))
    \<and> (rows = good @ (t # flds) # later \<and> (\<forall>row \<in> set good. valid_row e row)
          \<and> supportedType e t \<and> \<not> truthy_opt (nth_opt flds 1) \<longrightarrow>
        manifest_objects e f content =
          Inl (CLIError (''URL not specified for object '' @ t @ '' '' @ tpl (nth_opt flds 0)
            @ '' in file '' @ f)))"
proof (intro conjI impI)
  assume "truthy f \<and> \<not> truthy name \<and> \<not> truthy type"
  then show "list_objects e type name \<lparr>list_file = Some f, list_recursive = rec\<rparr> s =
          (case readFileSync e (trace s) f of
             Inl err \<Rightarrow> Inl err
           | Inr text \<Rightarrow> manifest_objects e f text,
           s\<lparr>trace := trace s @ [CallReadFile f]\<rparr>)"
    by (auto simp: list_objects_def prog_defs split: sum.splits)
next
  assume "split_lines content = l0 # rest"
  then show "rows = (if truthy l0 \<and> CHR ''/'' \<in> set l0 then [take 3 (split_ws l0)] else [])
                 @ map (\<lambda>x. take 3 (split_ws x)) (filter truthy rest)"
    unfolding rows_def by (rule manifest_rows_lines)
next
  assume "\<forall>row \<in> set rows. valid_row e row"
  then show "manifest_objects e f content = Inr (map row_object rows)"
    unfolding manifest_objects_def rows_def by (rule rows_all_valid)
next
  assume h: "rows = good @ (t # flds) # later \<and> (\<forall>row \<in> set good. valid_row e row)
          \<and> \<not> supportedType e t"
  then have "manifest_row e f (0 + length good) (t # flds) =
      Inl (CLIError (''Objects of type '' @ t @ '' are not supportes near line ''
            @ show_nat (length good) @ '' of file '' @ f))"
    by simp
  then show "manifest_objects e f content =
          Inl (CLIError (''Objects of type '' @ t @ '' are not supportes near line ''
            @ show_nat (length good) @ '' of file '' @ f))"
    using h rows_first_invalid [of good e f 0 "t # flds" _ later]
    by (simp add: manifest_objects_def rows_def [symmetric])
next
  assume h: "rows = good @ (t # flds) # later \<and> (\<forall>row \<in> set good. valid_row e row)
          \<and> supportedType e t \<and> \<not> truthy_opt (nth_opt flds 1)"
  then have "manifest_row e f (0 + length good) (t # flds) =
      Inl (CLIError (''URL not specified for object '' @ t @ '' '' @ tpl (nth_opt flds 0)
            @ '' in file '' @ f))"
    by simp
  then show "manifest_objects e f content =
          Inl (CLIError (''URL not specified for object '' @ t @ '' '' @ tpl (nth_opt flds 0)
            @ '' in file '' @ f))"
    using h rows_first_invalid [of good e f 0 "t # flds" _ later]
    by (simp add: manifest_objects_def rows_def [symmetric])
qed

lemmas manifest_defs = manifest_rows_def isHeader_def truthy_def is_space_def valid_row_def
  row_object_def nth_opt_def env_manifest_def env0_def from_file_def

lemma manifest_examples:
  "split_lines manifest_header = [''HEADER'', ''PROG name1 url1'', ''PROG name2 url2'']"
  "manifest_rows manifest_header = [[''PROG'', ''name1'', ''url1''], [''PROG'', ''name2'', ''url2'']]"
  "split_lines manifest_no_header = [''PROG/P ZA /za'', [], ''CLAS/OC ZCL /zcl'', []]"
  "manifest_rows manifest_no_header = [[''PROG/P'', ''ZA'', ''/za''], [''CLAS/OC'', ''ZCL'', ''/zcl'']]"
  "manifest_rows manifest_bad_first = [[''DEVC/K'', ''ZPKG'', ''/zpkg''], [''PROG/P'', ''ZA'', ''/za'']]"
  "manifest_rows manifest_no_url_1 = [[''PROG/P'', ''ZA'']]"
  "manifest_rows manifest_no_url_3 = [[''CLAS/OC'', ''ZCL'', ''/zcl''], [''PROG/P'', ''ZA'']]"
  "manifest_rows manifest_bad_type_4 = [[''XXXX'', ''ZA'', ''/za'']]"
  by (simp_all add: manifest_defs manifest_header_def manifest_no_header_def manifest_bad_first_def
        manifest_no_url_1_def manifest_no_url_3_def manifest_bad_type_4_def)

theorem manifest_mode_witness:
  "list_objects (env_manifest manifest_header) [] [] from_file fresh =
     (Inr [\<lparr>otype = ''PROG'', oname = ''name1'', ourl = Some ''url1''\<rparr>,
           \<lparr>otype = ''PROG'', oname = ''name2'', ourl = Some ''url2''\<rparr>],
      fresh\<lparr>trace := [CallReadFile ''objs.txt'']\<rparr>)
   \<and> manifest_rows manifest_no_header =
       [take 3 (split_ws ''PROG/P ZA /za''), take 3 (split_ws ''CLAS/OC ZCL /zcl'')]
   \<and> manifest_objects (env_manifest []) ''objs.txt'' manifest_no_header =
       Inr [\<lparr>otype = ''PROG/P'', oname = ''ZA'', ourl = Some ''/za''\<rparr>,
            \<lparr>otype = ''CLAS/OC'', oname = ''ZCL'', ourl = Some ''/zcl''\<rparr>]
   \<and> manifest_objects (env_manifest []) ''objs.txt'' manifest_bad_first =
       Inl (CLIError ''Objects of type DEVC/K are not supportes near line 0 of file objs.txt'')
   \<and> manifest_objects (env_manifest []) ''objs.txt'' manifest_no_url_3 =
       Inl (CLIError ''URL not specified for object PROG/P ZA in file objs.txt'')"
proof -
  have sup: "supportedType (env_manifest c) t \<longleftrightarrow> t \<in> set [''PROG'', ''PROG/P'', ''CLAS/OC'']"
    and rd: "readFileSync (env_manifest c) tr f = Inr c" for c t tr f
    by (simp_all add: env_manifest_def)
  have mode: "truthy ''objs.txt'' \<and> \<not> truthy [] \<and> \<not> truthy []"
    by (simp add: truthy_def)
  have valid_h: "\<forall>row \<in> set (manifest_rows manifest_header). valid_row (env_manifest manifest_header) row"
    by (simp add: manifest_examples(2) valid_row_def truthy_def sup)
  have valid_n: "\<forall>row \<in> set (manifest_rows manifest_no_header). valid_row (env_manifest []) row"
    by (simp add: manifest_examples(4) valid_row_def truthy_def sup)
  note h = manifest_mode [where e = "env_manifest manifest_header" and f = "''objs.txt''"
      and s = fresh and content = manifest_header]
  have "list_objects (env_manifest manifest_header) [] [] from_file fresh =
      (manifest_objects (env_manifest manifest_header) ''objs.txt'' manifest_header,
       fresh\<lparr>trace := [CallReadFile ''objs.txt'']\<rparr>)"
    using h [THEN conjunct1, rule_format, OF mode, of None]
    by (simp add: from_file_def rd fresh_def)
  moreover have "manifest_objects (env_manifest manifest_header) ''objs.txt'' manifest_header =
      Inr [\<lparr>otype = ''PROG'', oname = ''name1'', ourl = Some ''url1''\<rparr>,
           \<lparr>otype = ''PROG'', oname = ''name2'', ourl = Some ''url2''\<rparr>]"
    using h [THEN conjunct2, THEN conjunct2, THEN conjunct1, THEN mp, OF valid_h]
    by (simp add: manifest_examples(2) row_object_def)
  ultimately have 1: "list_objects (env_manifest manifest_header) [] [] from_file fresh =
     (Inr [\<lparr>otype = ''PROG'', oname = ''name1'', ourl = Some ''url1''\<rparr>,
           \<lparr>otype = ''PROG'', oname = ''name2'', ourl = Some ''url2''\<rparr>],
      fresh\<lparr>trace := [CallReadFile ''objs.txt'']\<rparr>)"
    by simp
  note n = manifest_mode [where e = "env_manifest []" and f = "''objs.txt''" and s = fresh
      and content = manifest_no_header]
  have 2: "manifest_rows manifest_no_header =
       [take 3 (split_ws ''PROG/P ZA /za''), take 3 (split_ws ''CLAS/OC ZCL /zcl'')]"
    using n [THEN conjunct2, THEN conjunct1, rule_format, OF manifest_examples(3)]
    by (simp add: truthy_def)
  have 3: "manifest_objects (env_manifest []) ''objs.txt'' manifest_no_header =
       Inr [\<lparr>otype = ''PROG/P'', oname = ''ZA'', ourl = Some ''/za''\<rparr>,
            \<lparr>otype = ''CLAS/OC'', oname = ''ZCL'', ourl = Some ''/zcl''\<rparr>]"
    using n [THEN conjunct2, THEN conjunct2, THEN conjunct1, THEN mp, OF valid_n]
    by (simp add: manifest_examples(4) row_object_def)
  have bad: "manifest_rows manifest_bad_first = [] @ (''DEVC/K'' # [''ZPKG'', ''/zpkg'']) # [[''PROG/P'', ''ZA'', ''/za'']]
      \<and> (\<forall>row \<in> set []. valid_row (env_manifest []) row)
      \<and> \<not> supportedType (env_manifest []) ''DEVC/K''"
    by (simp add: manifest_examples(5) sup)
  have 4: "manifest_objects (env_manifest []) ''objs.txt'' manifest_bad_first =
       Inl (CLIError ''Objects of type DEVC/K are not supportes near line 0 of file objs.txt'')"
    using manifest_mode [where e = "env_manifest []" and f = "''objs.txt''" and s = fresh
      and content = manifest_bad_first,
      THEN conjunct2, THEN conjunct2, THEN conjunct2, THEN conjunct1, THEN mp, OF bad]
    by (simp add: show_nat.simps digit_def)
  have nourl: "manifest_rows manifest_no_url_3 = [[''CLAS/OC'', ''ZCL'', ''/zcl'']] @ (''PROG/P'' # [''ZA'']) # []
      \<and> (\<forall>row \<in> set [[''CLAS/OC'', ''ZCL'', ''/zcl'']]. valid_row (env_manifest []) row)
      \<and> supportedType (env_manifest []) ''PROG/P'' \<and> \<not> truthy_opt (nth_opt [''ZA''] 1)"
    by (simp add: manifest_examples(7) sup valid_row_def truthy_def nth_opt_def)
  have 5: "manifest_objects (env_manifest []) ''objs.txt'' manifest_no_url_3 =
       Inl (CLIError ''URL not specified for object PROG/P ZA in file objs.txt'')"
    using manifest_mode [where e = "env_manifest []" and f = "''objs.txt''" and s = fresh
      and content = manifest_no_url_3,
      THEN conjunct2, THEN conjunct2, THEN conjunct2, THEN conjunct2, THEN mp, OF nourl]
    by (simp add: nth_opt_def)
  show ?thesis using 1 2 3 4 5 by blast
qed

text \<open>
  Claim C9 as stated fails: the error for a missing url is the same text whether the
  offending row is the first line of the file or the third, so it cites no line; and
  for an unsupported type on the fourth line the number in the error is 0.
\<close>

theorem url_error_cites_no_line:
  "fst (list_objects (env_manifest manifest_no_url_1) [] [] from_file fresh) =
     Inl (CLIError ''URL not specified for object PROG/P ZA in file objs.txt'')
   \<and> fst (list_objects (env_manifest manifest_no_url_3) [] [] from_file fresh) =
     Inl (CLIError ''URL not specified for object PROG/P ZA in file objs.txt'')
   \<and> split_lines manifest_no_url_1 = [''PROG/P ZA'']
   \<and> split_lines manifest_no_url_3 = [''TYPE NAME URL'', ''CLAS/OC ZCL /zcl'', ''PROG/P ZA'']
   \<and> split_lines manifest_bad_type_4 = [''TYPE NAME URL'', [], [], ''XXXX ZA /za'']
   \<and> fst (list_objects (env_manifest manifest_bad_type_4) [] [] from_file fresh) =
     Inl (CLIError ''Objects of type XXXX are not supportes near line 0 of file objs.txt'')"
  by (simp add: list_objects_def manifest_objects_def prog_defs manifest_defs
        manifest_no_url_1_def manifest_no_url_3_def manifest_bad_type_4_def
        show_nat.simps digit_def)


end
